theory Spec2Isabelle
  imports Complex_Main "HOL-Library.AList"
begin

section \<open>JavaScript values used by the workspace\<close>

text \<open>
  A JavaScript number is a double: a finite double is modelled as the real it stands
  for, next to the two infinities and the not-a-number value. The sign of zero is not
  modelled. The operations below follow ECMAScript on these values; the result of an
  arithmetic operation on finite numbers is the exact result rounded to the nearest
  double, ties to the even significand, and to an infinity on overflow.
\<close>

datatype jsnum = Num real | PInf | NInf | NaN

text \<open>Rounding a real to the nearest integer, ties to the even one.\<close>

definition round_half_even :: "real \<Rightarrow> int" where
  "round_half_even y =
     (let f = \<lfloor>y\<rfloor>
      in if y - of_int f < 1 / 2 then f
         else if 1 / 2 < y - of_int f then f + 1
         else if even f then f else f + 1)"

text \<open>
  The exponent of the last place of the doubles around a real other than zero: 52 places
  below its leading binary digit, and no lower than the subnormal exponent.
\<close>

definition double_exponent :: "real \<Rightarrow> int" where
  "double_exponent x = max (\<lfloor>log 2 \<bar>x\<bar>\<rfloor> - 52) (- 1074)"

definition double_overflow :: real where
  "double_overflow = 2 ^ 1024"

definition to_double :: "real \<Rightarrow> jsnum" where
  "to_double x =
     (if x = 0 then Num 0
      else
        (let e = double_exponent x;
             y = of_int (round_half_even (x / 2 powr of_int e)) * 2 powr of_int e
         in if double_overflow \<le> \<bar>y\<bar> then (if 0 < x then PInf else NInf) else Num y))"

text \<open>The relational operators; every comparison with \<open>NaN\<close> is false.\<close>

fun js_lt :: "jsnum \<Rightarrow> jsnum \<Rightarrow> bool" where
  "js_lt NaN _ = False"
| "js_lt _ NaN = False"
| "js_lt (Num a) (Num b) = (a < b)"
| "js_lt (Num a) PInf = True"
| "js_lt (Num a) NInf = False"
| "js_lt PInf _ = False"
| "js_lt NInf NInf = False"
| "js_lt NInf _ = True"

definition js_gt :: "jsnum \<Rightarrow> jsnum \<Rightarrow> bool" where
  "js_gt a b = js_lt b a"

fun js_ge :: "jsnum \<Rightarrow> jsnum \<Rightarrow> bool" where
  "js_ge NaN _ = False"
| "js_ge _ NaN = False"
| "js_ge a b = (\<not> js_lt a b)"

fun js_sub :: "jsnum \<Rightarrow> jsnum \<Rightarrow> jsnum" where
  "js_sub NaN _ = NaN"
| "js_sub _ NaN = NaN"
| "js_sub (Num a) (Num b) = to_double (a - b)"
| "js_sub (Num a) PInf = NInf"
| "js_sub (Num a) NInf = PInf"
| "js_sub PInf PInf = NaN"
| "js_sub PInf _ = PInf"
| "js_sub NInf NInf = NaN"
| "js_sub NInf _ = NInf"

fun js_mul :: "jsnum \<Rightarrow> jsnum \<Rightarrow> jsnum" where
  "js_mul NaN _ = NaN"
| "js_mul _ NaN = NaN"
| "js_mul (Num a) (Num b) = to_double (a * b)"
| "js_mul (Num a) PInf = (if a = 0 then NaN else if 0 < a then PInf else NInf)"
| "js_mul (Num a) NInf = (if a = 0 then NaN else if 0 < a then NInf else PInf)"
| "js_mul PInf (Num b) = (if b = 0 then NaN else if 0 < b then PInf else NInf)"
| "js_mul NInf (Num b) = (if b = 0 then NaN else if 0 < b then NInf else PInf)"
| "js_mul PInf PInf = PInf"
| "js_mul PInf NInf = NInf"
| "js_mul NInf PInf = NInf"
| "js_mul NInf NInf = PInf"

text \<open>Division; a zero divisor is taken as positive zero.\<close>

fun js_div :: "jsnum \<Rightarrow> jsnum \<Rightarrow> jsnum" where
  "js_div NaN _ = NaN"
| "js_div _ NaN = NaN"
| "js_div (Num a) (Num b) =
     (if b \<noteq> 0 then to_double (a / b)
      else if a = 0 then NaN else if 0 < a then PInf else NInf)"
| "js_div (Num a) PInf = Num 0"
| "js_div (Num a) NInf = Num 0"
| "js_div PInf (Num b) = (if 0 \<le> b then PInf else NInf)"
| "js_div NInf (Num b) = (if 0 \<le> b then NInf else PInf)"
| "js_div PInf _ = NaN"
| "js_div NInf _ = NaN"

fun js_ceil :: "jsnum \<Rightarrow> jsnum" where
  "js_ceil (Num a) = Num (of_int \<lceil>a\<rceil>)"
| "js_ceil x = x"

text \<open>
  \<open>Math.log10\<close>, whose precision the language leaves to the implementation, is taken as
  the exact logarithm.
\<close>

fun js_log10 :: "jsnum \<Rightarrow> jsnum" where
  "js_log10 (Num a) = (if 0 < a then Num (log 10 a) else if a = 0 then NInf else NaN)"
| "js_log10 PInf = PInf"
| "js_log10 NInf = NaN"
| "js_log10 NaN = NaN"

text \<open>
  The values a variable of the workspace may hold where the source mixes numbers with
  \<open>null\<close> and \<open>undefined\<close>.
\<close>

datatype jsval = JUndefined | JNull | JNum jsnum | JObject string

text \<open>
  \<open>JObject\<close> stands for an object or a function, named by the property it was read from;
  converting one of those that occur here to a number gives not-a-number.
\<close>

fun to_number :: "jsval \<Rightarrow> jsnum" where
  "to_number JUndefined = NaN"
| "to_number JNull = Num 0"
| "to_number (JNum n) = n"
| "to_number (JObject n) = NaN"

definition jsv_ge :: "jsval \<Rightarrow> jsval \<Rightarrow> bool" where
  "jsv_ge a b = js_ge (to_number a) (to_number b)"

definition jsv_lt :: "jsval \<Rightarrow> jsval \<Rightarrow> bool" where
  "jsv_lt a b = js_lt (to_number a) (to_number b)"

definition jsv_sub :: "jsval \<Rightarrow> jsval \<Rightarrow> jsnum" where
  "jsv_sub a b = js_sub (to_number a) (to_number b)"

text \<open>The loose inequality \<open>!=\<close> on these values.\<close>

fun js_loose_eq :: "jsval \<Rightarrow> jsval \<Rightarrow> bool" where
  "js_loose_eq (JNum NaN) _ = False"
| "js_loose_eq _ (JNum NaN) = False"
| "js_loose_eq (JNum a) (JNum b) = (a = b)"
| "js_loose_eq (JNum a) _ = False"
| "js_loose_eq _ (JNum b) = False"
| "js_loose_eq (JObject a) (JObject b) = (a = b)"
| "js_loose_eq (JObject a) _ = False"
| "js_loose_eq _ (JObject b) = False"
| "js_loose_eq _ _ = True"

text \<open>
  An ordinary object, such as one written as an object literal, is given by its own
  properties; it inherits the properties of \<open>Object.prototype\<close>, which are functions and,
  for \<open>__proto__\<close>, an object. The operator \<open>in\<close> holds for own and for inherited
  properties alike.
\<close>

definition Object_prototype :: "string list" where
  "Object_prototype =
     [''constructor'', ''__defineGetter__'', ''__defineSetter__'', ''hasOwnProperty'',
      ''__lookupGetter__'', ''__lookupSetter__'', ''isPrototypeOf'', ''propertyIsEnumerable'',
      ''toString'', ''valueOf'', ''__proto__'', ''toLocaleString'']"

definition js_in :: "string \<Rightarrow> (string \<rightharpoonup> 'a) \<Rightarrow> bool" where
  "js_in n obj = (obj n \<noteq> None \<or> n \<in> set Object_prototype)"

text \<open>An object reference that may be \<open>null\<close> or \<open>undefined\<close>.\<close>

datatype 'a jsref = Null | Undefined | Obj 'a

text \<open>What the source throws: a string, or the engine's TypeError.\<close>

datatype js_error = Throw string | TypeError

section \<open>Workspace.Scale and getScaleById\<close>

datatype Scale = LOG | LINEAR

fun Scale_id :: "Scale \<Rightarrow> string" where
  "Scale_id LOG = ''log''"
| "Scale_id LINEAR = ''linear''"

fun Scale_function :: "Scale \<Rightarrow> jsval \<Rightarrow> jsval" where
  "Scale_function LOG x = JNum (js_log10 (to_number x))"
| "Scale_function LINEAR x = x"

fun Scale_filter :: "Scale \<Rightarrow> jsnum \<Rightarrow> bool" where
  "Scale_filter LOG x = (js_gt x (Num 0) \<and> js_lt x PInf)"
| "Scale_filter LINEAR x = (js_gt x NInf \<and> js_lt x PInf)"

fun Scale_legend :: "Scale \<Rightarrow> string" where
  "Scale_legend LOG = ''log''"
| "Scale_legend LINEAR = ''''"

text \<open>The entries of \<open>Workspace.Scale\<close> in the order \<open>for ... in\<close> visits them.\<close>

definition Scale_entries :: "Scale list" where
  "Scale_entries = [LOG, LINEAR]"

fun find_scale :: "Scale list \<Rightarrow> string \<Rightarrow> js_error + Scale" where
  "find_scale [] i = Inl (Throw (''Invalid scale id: '' @ i))"
| "find_scale (s # ss) i = (if Scale_id s = i then Inr s else find_scale ss i)"

definition getScaleById :: "string \<Rightarrow> js_error + Scale" where
  "getScaleById i = find_scale Scale_entries i"

section \<open>The data model\<close>

record Spot =
  spot_name :: string
  spot_scale :: jsval
  spot_color :: string
  spot_visibility :: jsval
  spot_intensity :: jsval

record Measure =
  measure_name :: string
  measure_values :: "jsnum list"

text \<open>Reading an array: an index outside the array gives \<open>undefined\<close>.\<close>

definition values_at :: "jsnum list \<Rightarrow> nat \<Rightarrow> jsval" where
  "values_at xs i = (if i < length xs then JNum (xs ! i) else JUndefined)"

definition values_at_num :: "jsnum list \<Rightarrow> jsnum \<Rightarrow> jsval" where
  "values_at_num xs n =
     (case n of
        Num r \<Rightarrow> if 0 \<le> r \<and> of_int \<lfloor>r\<rfloor> = r then values_at xs (nat \<lfloor>r\<rfloor>) else JUndefined
      | _ \<Rightarrow> JUndefined)"

definition measures_at :: "Measure list \<Rightarrow> int \<Rightarrow> Measure jsref" where
  "measures_at ms i = (if 0 \<le> i \<and> nat i < length ms then Obj (ms ! nat i) else Undefined)"

text \<open>
  What \<open>_colorMap\<close> may hold: a colormap of the registry, or a member of
  \<open>Object.prototype\<close> read from the registry under its name.
\<close>

datatype colormap = ColorMap nat | Object_member string

type_synonym image = string
type_synonym geometry = string
type_synonym settings = string

datatype Event = STATUS_CHANGE | MODE_CHANGE | MAPPING_CHANGE | INTENSITIES_CHANGE
  | ERRORS_CHANGE | AUTO_MAPPING_CHANGE | SETTINGS_CHANGE | NO_TASKS

definition Mode_UNDEFINED :: int where
  "Mode_UNDEFINED = 1"

definition MODE_2D :: int where
  "MODE_2D = 2"

definition MODE_3D :: int where
  "MODE_3D = 3"

datatype TaskType = DOWNLOAD | LOAD_IMAGE | LOAD_MESH | LOAD_MATERIAL | LOAD_MEASURES
  | LOAD_SETTINGS | MAP

fun TaskType_key :: "TaskType \<Rightarrow> string" where
  "TaskType_key DOWNLOAD = ''download''"
| "TaskType_key LOAD_IMAGE = ''load-image''"
| "TaskType_key LOAD_MESH = ''load-mesh''"
| "TaskType_key LOAD_MATERIAL = ''load-material''"
| "TaskType_key LOAD_MEASURES = ''load-measures''"
| "TaskType_key LOAD_SETTINGS = ''load-settings''"
| "TaskType_key MAP = ''map''"

text \<open>Whether \<open>worker\<close> is a constructor (\<open>typeof taskType.worker == 'function'\<close>).\<close>

fun TaskType_worker_is_function :: "TaskType \<Rightarrow> bool" where
  "TaskType_worker_is_function LOAD_IMAGE = True"
| "TaskType_worker_is_function LOAD_MATERIAL = True"
| "TaskType_worker_is_function _ = False"

text \<open>
  The arguments posted to a worker: a file taken from a list of files (\<open>None\<close> when the
  list has no such element, JavaScript's \<open>undefined\<close>), a list of file names, or the
  arguments of the mapper.
\<close>

datatype payload = File_arg "string option" | Names_arg "string list"
  | Map_arg "geometry" "Spot list" jsval

record Task =
  task_args :: payload
  task_posted :: bool

text \<open>
  Modelled from the spec: the scene collaborators (Scene2D and Scene3D are not among the
  sources). A scene keeps the spot sequence it was given, its colormap, the image or
  the geometry, the sequence last pushed through \<open>updateIntensities\<close>, and the number
  of \<open>refreshSpots\<close> calls it received. A new scene holds no spots, no image and no
  geometry.
\<close>

record Scene2D =
  s2_spots :: "Spot list option"
  s2_image :: "image option"
  s2_colorMap :: colormap
  s2_pushed :: "Spot list option"
  s2_refreshes :: nat

record Scene3D =
  s3_spots :: "Spot list option"
  s3_geometry :: "geometry option"
  s3_colorMap :: colormap
  s3_globalSpotScale :: jsval
  s3_pushed :: "Spot list option"
  s3_refreshes :: nat

datatype SceneRef = Scene2D_ref | Scene3D_ref

text \<open>
  The fields of the workspace. \<open>w_tasks\<close> holds the running tasks by key, in the
  order the keys were added; \<open>w_settingsToLoad\<close> is \<open>None\<close> for \<open>null\<close> and otherwise the
  pending file, itself \<open>None\<close> when it is \<open>undefined\<close>; \<open>w_terminated\<close> holds the keys of
  the workers terminated so far. The workspace proper extends these fields by
  \<open>w_events\<close>, the sequence of events published so far, and \<open>w_observed\<close>, which holds for
  each of them the fields as the subscribers of the event find them.
\<close>

record WorkspaceCore =
  w_mode :: int
  w_errors :: "string list"
  w_spots :: "Spot list option"
  w_measures :: "Measure list option"
  w_activeMeasure :: "Measure jsref"
  w_colorMap :: colormap
  w_scale :: Scale
  w_hotspotQuantile :: jsnum
  w_autoMinMax :: bool
  w_minValue :: jsval
  w_maxValue :: jsval
  w_scene3d :: Scene3D
  w_scene2d :: Scene2D
  w_currentScene :: "SceneRef option"
  w_loadedSettings :: "settings option"
  w_status :: string
  w_tasks :: "(string \<times> Task) list"
  w_settingsToLoad :: "string option option"
  w_terminated :: "string list"

record Workspace = WorkspaceCore +
  w_events :: "Event list"
  w_observed :: "WorkspaceCore list"

text \<open>The constructor; the argument identifies \<open>ColorMap.Maps.VIRIDIS\<close>.\<close>

definition Workspace_new :: "nat \<Rightarrow> Workspace" where
  "Workspace_new viridis =
     \<lparr> w_mode = Mode_UNDEFINED, w_errors = [], w_spots = None, w_measures = None,
       w_activeMeasure = Null, w_colorMap = ColorMap viridis, w_scale = LINEAR,
       w_hotspotQuantile = Num 1, w_autoMinMax = True,
       w_minValue = JNum (Num 0), w_maxValue = JNum (Num 0),
       w_scene3d = \<lparr> s3_spots = None, s3_geometry = None, s3_colorMap = ColorMap viridis,
                     s3_globalSpotScale = JNum (Num 1), s3_pushed = None, s3_refreshes = 0 \<rparr>,
       w_scene2d = \<lparr> s2_spots = None, s2_image = None, s2_colorMap = ColorMap viridis,
                     s2_pushed = None, s2_refreshes = 0 \<rparr>,
       w_currentScene = None, w_loadedSettings = None, w_status = [],
       w_tasks = [], w_settingsToLoad = None, w_terminated = [],
       w_events = [], w_observed = [] \<rparr>"

section \<open>The task runner and the event bus\<close>

text \<open>
  Modelled from the spec: \<open>_notify\<close> (EventSource is not among the sources). Publishing
  records the event, together with the fields of the workspace at that moment, and
  runs the handlers subscribed to it synchronously; the only handler the workspace
  subscribes itself is \<open>_loadPendingSettings\<close> on \<open>no-tasks\<close>, in its constructor.

  \<open>_cancelTask\<close>, \<open>_loadPendingSettings\<close> and \<open>_doTask\<close> call one another through it.
  Modelled from the spec: \<open>terminate\<close> of a worker (the workers are not among the sources)
  ends it; a worker that is terminated delivers no further message, so the promise of
  a cancelled task is never settled.
\<close>

function cancelTask :: "TaskType \<Rightarrow> Workspace \<Rightarrow> Workspace"
  and notify :: "Event \<Rightarrow> Workspace \<Rightarrow> Workspace"
  and loadPendingSettings :: "Workspace \<Rightarrow> Workspace"
  and doTask :: "TaskType \<Rightarrow> payload \<Rightarrow> Workspace \<Rightarrow> Workspace"
where
  "cancelTask t s =
     (let s1 = (if TaskType_key t \<in> fst ` set (w_tasks s)
                then s\<lparr> w_terminated := w_terminated s @ [TaskType_key t],
                        w_tasks := AList.delete (TaskType_key t) (w_tasks s) \<rparr>
                else s)
      in if length (w_tasks s1) < 1 then notify NO_TASKS s1 else s1)"
| "notify e s =
     (let s1 = s\<lparr> w_events := w_events s @ [e],
                   w_observed := w_observed s @ [WorkspaceCore.truncate s] \<rparr>
      in if e = NO_TASKS then loadPendingSettings s1 else s1)"
| "loadPendingSettings s =
     (if length (w_tasks s) < 1
      then (case w_settingsToLoad s of
              None \<Rightarrow> s
            | Some blob \<Rightarrow> (doTask LOAD_SETTINGS (File_arg blob) s)\<lparr> w_settingsToLoad := None \<rparr>)
      else s)"
| "doTask t args s =
     (let s1 = (if TaskType_key t \<in> fst ` set (w_tasks s) then cancelTask t s else s)
      in s1\<lparr> w_tasks := AList.update (TaskType_key t)
                 \<lparr> task_args = args, task_posted = TaskType_worker_is_function t \<rparr>
                 (w_tasks s1) \<rparr>)"
  by pat_completeness auto
termination
  by (relation "measure (\<lambda>x. case x of
        Inl (Inl (t, s)) \<Rightarrow> 3
      | Inl (Inr (e, s)) \<Rightarrow> 2
      | Inr (Inl s) \<Rightarrow> 1
      | Inr (Inr (t, args, s)) \<Rightarrow> (if TaskType_key t \<in> fst ` set (w_tasks s) then 4 else 0))") auto

definition setStatus :: "string \<Rightarrow> Workspace \<Rightarrow> Workspace" where
  "setStatus status s = notify STATUS_CHANGE (s\<lparr> w_status := status \<rparr>)"

definition addError :: "string \<Rightarrow> Workspace \<Rightarrow> Workspace" where
  "addError message s = notify ERRORS_CHANGE (s\<lparr> w_errors := w_errors s @ [message] \<rparr>)"

text \<open>
  The \<open>completed\<close> branch of \<open>task.worker.onmessage\<close> for the running task of a kind:
  the status is cleared, the promise resolved and the task cancelled; the callback
  given to \<open>then\<close> runs after it.
\<close>

definition worker_completed :: "TaskType \<Rightarrow> Workspace \<Rightarrow> Workspace" where
  "worker_completed t s = cancelTask t (setStatus [] s)"

text \<open>\<open>loadSettings\<close>, and the completion of the task it starts.\<close>

definition first_file :: "string list \<Rightarrow> string option" where
  "first_file blob = (case blob of [] \<Rightarrow> None | b # _ \<Rightarrow> Some b)"

definition loadSettings :: "string list \<Rightarrow> Workspace \<Rightarrow> Workspace" where
  "loadSettings blob s = loadPendingSettings (s\<lparr> w_settingsToLoad := Some (first_file blob) \<rparr>)"

definition settings_then :: "settings \<Rightarrow> Workspace \<Rightarrow> Workspace" where
  "settings_then result s = notify SETTINGS_CHANGE (s\<lparr> w_loadedSettings := Some result \<rparr>)"

definition settings_completed :: "settings \<Rightarrow> Workspace \<Rightarrow> Workspace" where
  "settings_completed result s = settings_then result (worker_completed LOAD_SETTINGS s)"

section \<open>The intensity pipeline\<close>

text \<open>
  \<open>Array.prototype.sort\<close> with the comparator \<open>a - b\<close>, as a stable insertion sort: an
  element moves behind the elements the comparator puts before it.
\<close>

definition compare_numbers :: "jsnum \<Rightarrow> jsnum \<Rightarrow> jsnum" where
  "compare_numbers a b = js_sub a b"

fun insert_sorted :: "jsnum \<Rightarrow> jsnum list \<Rightarrow> jsnum list" where
  "insert_sorted x [] = [x]"
| "insert_sorted x (y # ys) =
     (if js_gt (compare_numbers x y) (Num 0) then y # insert_sorted x ys else x # y # ys)"

definition array_sort :: "jsnum list \<Rightarrow> jsnum list" where
  "array_sort xs = foldr insert_sorted xs []"

text \<open>
  Modelled from the spec: \<open>updateIntensities\<close> of the scenes (not among the sources), which
  are handed the full spot sequence after a recompute.
\<close>

definition Scene2D_updateIntensities :: "Spot list \<Rightarrow> Scene2D \<Rightarrow> Scene2D" where
  "Scene2D_updateIntensities spots sc = sc\<lparr> s2_pushed := Some spots \<rparr>"

definition Scene3D_updateIntensities :: "Spot list \<Rightarrow> Scene3D \<Rightarrow> Scene3D" where
  "Scene3D_updateIntensities spots sc = sc\<lparr> s3_pushed := Some spots \<rparr>"

text \<open>\<open>_updateMinMaxValues\<close>; the first component is the value it returns.\<close>

definition updateMinMaxValues :: "Workspace \<Rightarrow> bool \<times> Workspace" where
  "updateMinMaxValues s =
     (let values0 = (case w_activeMeasure s of Obj m \<Rightarrow> measure_values m | _ \<Rightarrow> []);
          values = array_sort (filter (Scale_filter (w_scale s)) values0);
          minValue = (if 0 < length values
                      then Scale_function (w_scale s) (values_at values 0)
                      else JNum (Num 0));
          maxValue = (if 0 < length values
                      then Scale_function (w_scale s)
                             (values_at_num values
                                (js_ceil (js_mul (js_sub (Num (real (length values))) (Num 1))
                                                 (w_hotspotQuantile s))))
                      else JNum (Num 0))
      in if \<not> js_loose_eq (w_minValue s) minValue \<or> \<not> js_loose_eq (w_maxValue s) maxValue
         then (True, notify MAPPING_CHANGE (notify AUTO_MAPPING_CHANGE
                       (s\<lparr> w_minValue := minValue, w_maxValue := maxValue \<rparr>)))
         else (False, s))"

text \<open>The body of the loop of \<open>_updateIntensities\<close> for the spot of index \<open>i\<close>.\<close>

definition scaledValue :: "Workspace \<Rightarrow> nat \<Rightarrow> jsval" where
  "scaledValue s i =
     (case w_activeMeasure s of
        Null \<Rightarrow> JNull
      | Undefined \<Rightarrow> JUndefined
      | Obj m \<Rightarrow> Scale_function (w_scale s) (values_at (measure_values m) i))"

definition intensity_of :: "jsval \<Rightarrow> jsval \<Rightarrow> jsval \<Rightarrow> jsnum" where
  "intensity_of scaled minValue maxValue =
     (if jsv_ge scaled maxValue then Num 1
      else if jsv_ge scaled minValue
      then js_div (jsv_sub scaled minValue) (jsv_sub maxValue minValue)
      else NaN)"

fun intensities_loop :: "Workspace \<Rightarrow> nat \<Rightarrow> Spot list \<Rightarrow> Spot list" where
  "intensities_loop s i [] = []"
| "intensities_loop s i (spot # spots) =
     spot\<lparr> spot_intensity := JNum (intensity_of (scaledValue s i) (w_minValue s) (w_maxValue s)) \<rparr>
       # intensities_loop s (Suc i) spots"

definition updateIntensities :: "Workspace \<Rightarrow> Workspace" where
  "updateIntensities s =
     (case w_spots s of
        None \<Rightarrow> s
      | Some spots \<Rightarrow>
          (let spots' = intensities_loop s 0 spots
           in s\<lparr> w_spots := Some spots',
                  w_scene3d := Scene3D_updateIntensities spots' (w_scene3d s),
                  w_scene2d := Scene2D_updateIntensities spots' (w_scene2d s) \<rparr>))"

definition selectMapByIndex :: "int \<Rightarrow> Workspace \<Rightarrow> Workspace" where
  "selectMapByIndex index s =
     (case w_measures s of
        None \<Rightarrow> s
      | Some ms \<Rightarrow>
          (let s1 = s\<lparr> w_activeMeasure := measures_at ms index \<rparr>;
               s2 = (if w_autoMinMax s1 then snd (updateMinMaxValues s1) else s1)
           in updateIntensities s2))"

definition mapName :: "Workspace \<Rightarrow> string" where
  "mapName s = (case w_activeMeasure s of Obj m \<Rightarrow> measure_name m | _ \<Rightarrow> [])"

text \<open>The setters of \<open>autoMinMax\<close>, \<open>minValue\<close>, \<open>maxValue\<close>, \<open>hotspotQuantile\<close> and \<open>scaleId\<close>.\<close>

definition set_autoMinMax :: "bool \<Rightarrow> Workspace \<Rightarrow> Workspace" where
  "set_autoMinMax v s =
     (let s1 = s\<lparr> w_autoMinMax := v \<rparr>;
          s2 = (if w_autoMinMax s1
                then (case updateMinMaxValues s1 of
                        (True, s') \<Rightarrow> updateIntensities s'
                      | (False, s') \<Rightarrow> s')
                else s1)
      in notify AUTO_MAPPING_CHANGE s2)"

definition set_minValue :: "jsval \<Rightarrow> Workspace \<Rightarrow> Workspace" where
  "set_minValue v s =
     (if w_autoMinMax s then s
      else notify MAPPING_CHANGE (updateIntensities (s\<lparr> w_minValue := JNum (to_number v) \<rparr>)))"

definition set_maxValue :: "jsval \<Rightarrow> Workspace \<Rightarrow> Workspace" where
  "set_maxValue v s =
     (if w_autoMinMax s then s
      else notify MAPPING_CHANGE (updateIntensities (s\<lparr> w_maxValue := JNum (to_number v) \<rparr>)))"

definition set_hotspotQuantile :: "jsnum \<Rightarrow> Workspace \<Rightarrow> Workspace" where
  "set_hotspotQuantile v s =
     (if w_hotspotQuantile s \<noteq> NaN \<and> w_hotspotQuantile s = v then s
      else
        (let v1 = (if js_lt v (Num 0) then Num 0 else v);
             v2 = (if js_gt v1 (Num 1) then Num 1 else v1);
             s1 = s\<lparr> w_hotspotQuantile := v2 \<rparr>
         in if w_autoMinMax s1
            then (case updateMinMaxValues s1 of
                    (True, s') \<Rightarrow> updateIntensities s'
                  | (False, s') \<Rightarrow> s')
            else s1))"

definition set_scaleId :: "string \<Rightarrow> Workspace \<Rightarrow> js_error + Workspace" where
  "set_scaleId v s =
     (if Scale_id (w_scale s) = v then Inr s
      else
        (case getScaleById v of
           Inl e \<Rightarrow> Inl e
         | Inr sc \<Rightarrow>
             (let s1 = s\<lparr> w_scale := sc \<rparr>;
                  s2 = (if w_autoMinMax s1 then snd (updateMinMaxValues s1) else s1)
              in Inr (notify MAPPING_CHANGE (updateIntensities s2)))))"

section \<open>Mode, colormap and per-spot properties\<close>

text \<open>
  Modelled from the spec: \<open>resetImage\<close> of the 2D scene (not among the sources) drops the
  image; assigning \<open>spots\<close> or \<open>geometry\<close> of a scene stores the value.
\<close>

definition Scene2D_resetImage :: "Scene2D \<Rightarrow> Scene2D" where
  "Scene2D_resetImage sc = sc\<lparr> s2_image := None \<rparr>"

text \<open>The setter of \<open>mode\<close>.\<close>

definition set_mode :: "int \<Rightarrow> Workspace \<Rightarrow> Workspace" where
  "set_mode v s =
     (if w_mode s = v then s
      else
        (let s0 = s\<lparr> w_mode := v \<rparr>;
             s1 = (if w_mode s0 = MODE_2D
                   then s0\<lparr> w_scene2d := (w_scene2d s0)\<lparr> s2_spots := w_spots s0 \<rparr>,
                            w_currentScene := Some Scene2D_ref \<rparr>
                   else cancelTask LOAD_IMAGE
                          (s0\<lparr> w_scene2d := (Scene2D_resetImage (w_scene2d s0))\<lparr> s2_spots := None \<rparr> \<rparr>));
             s2 = (if w_mode s1 = MODE_3D
                   then s1\<lparr> w_scene3d := (w_scene3d s1)\<lparr> s3_spots := w_spots s1 \<rparr>,
                            w_currentScene := Some Scene3D_ref \<rparr>
                   else cancelTask LOAD_MESH
                          (s1\<lparr> w_scene3d := (w_scene3d s1)\<lparr> s3_geometry := None, s3_spots := None \<rparr> \<rparr>))
         in notify MODE_CHANGE s2))"

text \<open>
  The setter of \<open>colorMapId\<close>. Modelled from the spec: the registry \<open>ColorMap.Maps\<close> (the
  colormaps module is not among the sources), an ordinary object whose own properties,
  the registered identifiers with their colormaps, are a parameter.
\<close>

definition Maps_at :: "(string \<rightharpoonup> colormap) \<Rightarrow> string \<Rightarrow> colormap" where
  "Maps_at Maps v = (case Maps v of Some cm \<Rightarrow> cm | None \<Rightarrow> Object_member v)"

definition set_colorMapId :: "(string \<rightharpoonup> colormap) \<Rightarrow> string \<Rightarrow> Workspace \<Rightarrow> Workspace" where
  "set_colorMapId Maps v s =
     (if js_in v Maps
      then notify MAPPING_CHANGE
             (s\<lparr> w_colorMap := Maps_at Maps v,
                 w_scene2d := (w_scene2d s)\<lparr> s2_colorMap := Maps_at Maps v \<rparr>,
                 w_scene3d := (w_scene3d s)\<lparr> s3_colorMap := Maps_at Maps v \<rparr> \<rparr>)
      else s)"

text \<open>
  The setter built by \<open>_createSpotsProperty\<close>. The spots of the current scene are read
  by index; reading an element of \<open>null\<close>, or a property of an element that does not
  exist, is a TypeError, which ends the loop and leaves the writes made so far. The
  last argument of the loop is \<open>None\<close> when there is no current scene and the spots of
  the current scene otherwise; the loop returns the error, if any, and the spots of the
  workspace and of the scene as it leaves them.
\<close>

definition current_scene_spots :: "Workspace \<Rightarrow> Spot list option option" where
  "current_scene_spots s =
     (case w_currentScene s of
        None \<Rightarrow> None
      | Some Scene2D_ref \<Rightarrow> Some (s2_spots (w_scene2d s))
      | Some Scene3D_ref \<Rightarrow> Some (s3_spots (w_scene3d s)))"

definition set_current_scene_spots :: "Spot list option option \<Rightarrow> Workspace \<Rightarrow> Workspace" where
  "set_current_scene_spots v s =
     (case (w_currentScene s, v) of
        (Some Scene2D_ref, Some sp) \<Rightarrow> s\<lparr> w_scene2d := (w_scene2d s)\<lparr> s2_spots := sp \<rparr> \<rparr>
      | (Some Scene3D_ref, Some sp) \<Rightarrow> s\<lparr> w_scene3d := (w_scene3d s)\<lparr> s3_spots := sp \<rparr> \<rparr>
      | _ \<Rightarrow> s)"

text \<open>
  Modelled from the spec: \<open>refreshSpots\<close> of the current scene (not among the sources), counted
  by the scene.
\<close>

definition refreshSpots :: "Workspace \<Rightarrow> Workspace" where
  "refreshSpots s =
     (case w_currentScene s of
        None \<Rightarrow> s
      | Some Scene2D_ref \<Rightarrow>
          s\<lparr> w_scene2d := (w_scene2d s)\<lparr> s2_refreshes := Suc (s2_refreshes (w_scene2d s)) \<rparr> \<rparr>
      | Some Scene3D_ref \<Rightarrow>
          s\<lparr> w_scene3d := (w_scene3d s)\<lparr> s3_refreshes := Suc (s3_refreshes (w_scene3d s)) \<rparr> \<rparr>)"

fun spots_loop :: "((string \<rightharpoonup> jsval) \<Rightarrow> Spot \<Rightarrow> Spot) \<Rightarrow> (string \<rightharpoonup> jsval) \<Rightarrow> nat \<Rightarrow>
    Spot list \<Rightarrow> Spot list option option \<Rightarrow> js_error option \<times> Spot list \<times> Spot list option option" where
  "spots_loop setter vals i [] sc = (None, [], sc)"
| "spots_loop setter vals i (spot # spots) sc =
     (if js_in (spot_name spot) vals
      then
        (case sc of
           None \<Rightarrow>
             (case spots_loop setter vals (Suc i) spots sc of
                (e, r, sc') \<Rightarrow> (e, setter vals spot # r, sc'))
         | Some None \<Rightarrow> (Some TypeError, setter vals spot # spots, sc)
         | Some (Some xs) \<Rightarrow>
             (if i < length xs
              then
                (case spots_loop setter vals (Suc i) spots (Some (Some (xs[i := setter vals (xs ! i)]))) of
                   (e, r, sc') \<Rightarrow> (e, setter vals spot # r, sc'))
              else (Some TypeError, setter vals spot # spots, sc)))
      else
        (case spots_loop setter vals (Suc i) spots sc of
           (e, r, sc') \<Rightarrow> (e, spot # r, sc')))"

text \<open>
  The first component of the result is the error thrown, if any; the post-modification
  hook only runs when the loop has ended without one.
\<close>

definition createSpotsProperty_set :: "((string \<rightharpoonup> jsval) \<Rightarrow> Spot \<Rightarrow> Spot) \<Rightarrow>
    (Workspace \<Rightarrow> Workspace) option \<Rightarrow> (string \<rightharpoonup> jsval) \<Rightarrow> Workspace \<Rightarrow>
    js_error option \<times> Workspace" where
  "createSpotsProperty_set setter postModificationCallback vals s =
     (case w_spots s of
        None \<Rightarrow> (None, s)
      | Some spots \<Rightarrow>
          (case spots_loop setter vals 0 spots (current_scene_spots s) of
             (e, spots', sc') \<Rightarrow>
               (let s1 = set_current_scene_spots sc' (s\<lparr> w_spots := Some spots' \<rparr>)
                in case e of
                     Some err \<Rightarrow> (Some err, s1)
                   | None \<Rightarrow>
                       (None, case postModificationCallback of
                                Some callback \<Rightarrow> callback s1
                              | None \<Rightarrow> refreshSpots s1))))"

text \<open>
  The setter function of \<open>spotVisibility\<close>. Reading a name from the mapping gives its own
  value, the inherited member of \<open>Object.prototype\<close>, or \<open>undefined\<close>.
\<close>

definition lookup_value :: "(string \<rightharpoonup> jsval) \<Rightarrow> string \<Rightarrow> jsval" where
  "lookup_value vals n =
     (case vals n of
        Some v \<Rightarrow> v
      | None \<Rightarrow> if n \<in> set Object_prototype then JObject n else JUndefined)"

definition clamp_visibility :: "jsval \<Rightarrow> jsval" where
  "clamp_visibility v =
     (if jsv_lt v (JNum (Num 0)) then JNum (Num 0)
      else if jsv_lt (JNum (Num 1)) v then JNum (Num 1)
      else v)"

definition visibility_setter :: "(string \<rightharpoonup> jsval) \<Rightarrow> Spot \<Rightarrow> Spot" where
  "visibility_setter visibility spot =
     spot\<lparr> spot_visibility := clamp_visibility (lookup_value visibility (spot_name spot)) \<rparr>"

definition set_spotVisibility :: "(string \<rightharpoonup> jsval) \<Rightarrow> Workspace \<Rightarrow> js_error option \<times> Workspace" where
  "set_spotVisibility vals s = createSpotsProperty_set visibility_setter None vals s"

section \<open>Loading an image\<close>

text \<open>
  \<open>loadImage\<close>, up to the start of the task; its callback hands the loaded image to the
  2D scene.
\<close>

definition loadImage :: "string list \<Rightarrow> Workspace \<Rightarrow> Workspace" where
  "loadImage blob s =
     (let s1 = set_mode MODE_2D s;
          s2 = s1\<lparr> w_scene2d := Scene2D_resetImage (w_scene2d s1) \<rparr>
      in doTask LOAD_IMAGE (File_arg (first_file blob)) s2)"

section \<open>Loading measures\<close>

datatype RecoloringMode = USE_COLORMAP | NO_COLORMAP

text \<open>
  \<open>_mapMesh\<close>: the recoloring mode is only used by the callback that stores the
  mapper's result.
\<close>

definition mapMesh :: "RecoloringMode \<Rightarrow> Workspace \<Rightarrow> Workspace" where
  "mapMesh recoloringMode s =
     (case (s3_geometry (w_scene3d s), w_spots s) of
        (Some g, Some spots) \<Rightarrow> doTask MAP (Map_arg g spots (s3_globalSpotScale (w_scene3d s))) s
      | _ \<Rightarrow> s)"

definition loadIntensities :: "string list \<Rightarrow> Workspace \<Rightarrow> Workspace" where
  "loadIntensities blob s = doTask LOAD_MEASURES (File_arg (first_file blob)) s"

text \<open>
  The callback of \<open>loadIntensities\<close>, given the spots and the measures of the result;
  a new \<open>THREE.Color\<close> is white.
\<close>

definition measures_then :: "Spot list \<Rightarrow> Measure list \<Rightarrow> Workspace \<Rightarrow> Workspace" where
  "measures_then result_spots result_measures s =
     (let spots = map (\<lambda>spot. spot\<lparr> spot_scale := JNum (Num 1), spot_color := ''ffffff'',
                                     spot_visibility := JNum (Num 1) \<rparr>) result_spots;
          s1 = s\<lparr> w_spots := Some spots, w_measures := Some result_measures,
                  w_activeMeasure := Null \<rparr>;
          s2 = (if w_mode s1 = MODE_3D
                then mapMesh USE_COLORMAP
                       (s1\<lparr> w_scene3d := (w_scene3d s1)\<lparr> s3_spots := w_spots s1 \<rparr> \<rparr>)
                else if w_mode s1 = MODE_2D
                then s1\<lparr> w_scene2d := (w_scene2d s1)\<lparr> s2_spots := w_spots s1 \<rparr> \<rparr>
                else s1)
      in notify INTENSITIES_CHANGE s2)"

definition measures_completed :: "Spot list \<Rightarrow> Measure list \<Rightarrow> Workspace \<Rightarrow> Workspace" where
  "measures_completed result_spots result_measures s =
     measures_then result_spots result_measures (worker_completed LOAD_MEASURES s)"

section \<open>Notions used to state the properties\<close>

text \<open>The real number a finite JavaScript number stands for.\<close>

fun real_of_num :: "jsnum \<Rightarrow> real" where
  "real_of_num (Num r) = r"
| "real_of_num _ = 0"

fun is_finite :: "jsnum \<Rightarrow> bool" where
  "is_finite (Num r) = True"
| "is_finite _ = False"

text \<open>A spot as it comes out of the measures loader, and a workspace for the examples.\<close>

definition loaded_spot :: "string \<Rightarrow> Spot" where
  "loaded_spot n = \<lparr> spot_name = n, spot_scale = JUndefined, spot_color = [],
       spot_visibility = JUndefined, spot_intensity = JUndefined \<rparr>"

text \<open>
  The state owned by a mode the workspace is not in is clear: no image, no geometry, no
  scene spots, and no load task of that mode.
\<close>

definition scenes_clear :: "Workspace \<Rightarrow> bool" where
  "scenes_clear s \<longleftrightarrow>
     (w_mode s \<noteq> MODE_2D \<longrightarrow>
        s2_image (w_scene2d s) = None \<and> s2_spots (w_scene2d s) = None
        \<and> ''load-image'' \<notin> fst ` set (w_tasks s))
     \<and> (w_mode s \<noteq> MODE_3D \<longrightarrow>
        s3_geometry (w_scene3d s) = None \<and> s3_spots (w_scene3d s) = None
        \<and> ''load-mesh'' \<notin> fst ` set (w_tasks s))"

text \<open>
  The automatic bounds in the words of the specification: the raw values the scale
  accepts, in ascending order.
\<close>

definition spec_survivors :: "Scale \<Rightarrow> jsnum list \<Rightarrow> real list" where
  "spec_survivors sc raw = sort (map real_of_num (filter (Scale_filter sc) raw))"

definition example_measure :: Measure where
  "example_measure = \<lparr> measure_name = ''m'', measure_values = [Num 1, Num 2, Num 3, Num 4, Num 5] \<rparr>"

definition example_workspace :: Workspace where
  "example_workspace =
     (Workspace_new 0)\<lparr> w_spots := Some (map loaded_spot [''a'', ''b'', ''c'', ''d'', ''e'']),
                         w_measures := Some [example_measure],
                         w_hotspotQuantile := Num (1 / 2) \<rparr>"

definition guard_workspace :: Workspace where
  "guard_workspace =
     (Workspace_new 0)\<lparr> w_spots := Some (map loaded_spot [''a'', ''b'']),
                         w_activeMeasure := Obj \<lparr> measure_name = ''m'', measure_values = [Num 5, Num 3] \<rparr>,
                         w_autoMinMax := False,
                         w_minValue := JNum (Num 5), w_maxValue := JNum (Num 5) \<rparr>"

definition loaded_workspace :: Workspace where
  "loaded_workspace =
     measures_completed (map loaded_spot [''a'', ''b''])
       [\<lparr> measure_name = ''m'', measure_values = [Num 4, Num 9] \<rparr>]
       (loadIntensities [''m.csv''] (Workspace_new 0))"

text \<open>
  The keys of the load tasks the mode setter cancels on entering a mode, and the tasks
  it leaves of those that were running.
\<close>

definition cancelled_keys :: "int \<Rightarrow> string list" where
  "cancelled_keys v =
     (if v = MODE_2D then [] else [''load-image'']) @ (if v = MODE_3D then [] else [''load-mesh''])"

definition remaining_tasks :: "int \<Rightarrow> (string \<times> Task) list \<Rightarrow> (string \<times> Task) list" where
  "remaining_tasks v ts = filter (\<lambda>(k, t). k \<notin> set (cancelled_keys v)) ts"

text \<open>
  A workspace in \<open>MODE_2D\<close> with measures loaded, an image load running and a settings
  file pending.
\<close>

definition image_loading_workspace :: Workspace where
  "image_loading_workspace = loadSettings [''s.json''] (loadImage [''i.png''] loaded_workspace)"

text \<open>A finite number of the model is a double when rounding leaves it as it is.\<close>

fun is_double :: "jsnum \<Rightarrow> bool" where
  "is_double (Num r) = (to_double r = Num r)"
| "is_double _ = True"

text \<open>
  A workspace with six values and the double nearest to 0.2 as quantile, and a workspace
  with measures loaded, no active measure, and both bounds set to \<open>- 2\<close> by hand.
\<close>

definition quantile_measure :: Measure where
  "quantile_measure =
     \<lparr> measure_name = ''m'', measure_values = [Num 10, Num 20, Num 30, Num 40, Num 50, Num 60] \<rparr>"

definition quantile_workspace :: Workspace where
  "quantile_workspace =
     (Workspace_new 0)\<lparr> w_spots := Some (map loaded_spot [''a'', ''b'', ''c'', ''d'', ''e'', ''f'']),
                         w_measures := Some [quantile_measure],
                         w_hotspotQuantile := Num (3602879701896397 / 2 ^ 54) \<rparr>"

definition equal_bounds_workspace :: Workspace where
  "equal_bounds_workspace =
     set_maxValue (JNum (Num (- 2))) (set_minValue (JNum (Num (- 2)))
       (set_autoMinMax False loaded_workspace))"

text \<open>A quantile as the setter of \<open>hotspotQuantile\<close> keeps it: between 0 and 1, or not a number.\<close>

fun quantile_ok :: "jsnum \<Rightarrow> bool" where
  "quantile_ok (Num q) = (0 \<le> q \<and> q \<le> 1)"
| "quantile_ok NaN = True"
| "quantile_ok _ = False"

section \<open>The task runner in closed form\<close>

lemma truncate_logs [simp]:
  "WorkspaceCore.truncate (s\<lparr> w_events := x \<rparr>) = WorkspaceCore.truncate s"
  "WorkspaceCore.truncate (s\<lparr> w_observed := y \<rparr>) = WorkspaceCore.truncate s"
  by (simp_all add: WorkspaceCore.truncate_def)

declare cancelTask.simps [simp del] notify.simps [simp del]
declare loadPendingSettings.simps [simp del] doTask.simps [simp del]

lemma doTask_fresh:
  "TaskType_key t \<notin> fst ` set (w_tasks s) \<Longrightarrow>
   doTask t args s = s\<lparr> w_tasks := AList.update (TaskType_key t)
       \<lparr> task_args = args, task_posted = TaskType_worker_is_function t \<rparr> (w_tasks s) \<rparr>"
  by (simp add: doTask.simps)

lemma loadPendingSettings_eq:
  "loadPendingSettings s =
     (if w_tasks s = []
      then (case w_settingsToLoad s of
              None \<Rightarrow> s
            | Some blob \<Rightarrow>
                s\<lparr> w_tasks := [(''load-settings'', \<lparr> task_args = File_arg blob, task_posted = False \<rparr>)],
                   w_settingsToLoad := None \<rparr>)
      else s)"
  by (simp add: loadPendingSettings.simps doTask_fresh split: option.splits)

lemma notify_eq:
  "notify e s =
     (if e = NO_TASKS
      then loadPendingSettings
             (s\<lparr> w_events := w_events s @ [e],
                 w_observed := w_observed s @ [WorkspaceCore.truncate s] \<rparr>)
      else s\<lparr> w_events := w_events s @ [e],
              w_observed := w_observed s @ [WorkspaceCore.truncate s] \<rparr>)"
  by (simp add: notify.simps)

lemma cancelTask_eq:
  "cancelTask t s =
     (let s1 = (if TaskType_key t \<in> fst ` set (w_tasks s)
                then s\<lparr> w_terminated := w_terminated s @ [TaskType_key t],
                        w_tasks := AList.delete (TaskType_key t) (w_tasks s) \<rparr>
                else s)
      in if w_tasks s1 = [] then notify NO_TASKS s1 else s1)"
  by (simp add: cancelTask.simps)

lemmas task_eqs = cancelTask_eq notify_eq loadPendingSettings_eq

lemma key_load_settings: "TaskType_key k = ''load-settings'' \<longleftrightarrow> k = LOAD_SETTINGS"
  by (cases k) simp_all

lemma cancelTask_absent:
  "TaskType_key k \<notin> fst ` set (w_tasks s) \<Longrightarrow> w_tasks s \<noteq> [] \<Longrightarrow> cancelTask k s = s"
  by (simp add: cancelTask_eq)

lemma cancelTask_idle:
  "w_tasks s = [] \<Longrightarrow> w_settingsToLoad s = None \<Longrightarrow>
   cancelTask k s = s\<lparr> w_events := w_events s @ [NO_TASKS],
                       w_observed := w_observed s @ [WorkspaceCore.truncate s] \<rparr>"
  by (simp add: task_eqs)

lemma cancelTask_tasks:
  "w_tasks (cancelTask k s) =
     (if AList.delete (TaskType_key k) (w_tasks s) = []
      then (case w_settingsToLoad s of
              None \<Rightarrow> []
            | Some blob \<Rightarrow> [(''load-settings'', \<lparr> task_args = File_arg blob, task_posted = False \<rparr>)])
      else AList.delete (TaskType_key k) (w_tasks s))"
  by (simp add: task_eqs Let_def split: option.splits)

lemma cancelTask_settingsToLoad:
  "w_settingsToLoad (cancelTask k s) =
     (if AList.delete (TaskType_key k) (w_tasks s) = [] then None else w_settingsToLoad s)"
  by (simp add: task_eqs Let_def split: option.splits)

lemma cancelTask_events:
  "w_events (cancelTask k s) =
     (if AList.delete (TaskType_key k) (w_tasks s) = [] then w_events s @ [NO_TASKS] else w_events s)"
  by (simp add: task_eqs Let_def split: option.splits)

lemma Workspace_new_fields [simp]:
  "w_mode (Workspace_new c) = Mode_UNDEFINED"
  "w_tasks (Workspace_new c) = []"
  "w_settingsToLoad (Workspace_new c) = None"
  "w_events (Workspace_new c) = []"
  "w_observed (Workspace_new c) = []"
  "w_spots (Workspace_new c) = None"
  "w_currentScene (Workspace_new c) = None"
  by (simp_all add: Workspace_new_def)

lemma mode_distinct [simp]:
  "MODE_2D \<noteq> MODE_3D" "MODE_3D \<noteq> MODE_2D"
  "Mode_UNDEFINED \<noteq> MODE_2D" "MODE_2D \<noteq> Mode_UNDEFINED"
  "Mode_UNDEFINED \<noteq> MODE_3D" "MODE_3D \<noteq> Mode_UNDEFINED"
  by (simp_all add: MODE_2D_def MODE_3D_def Mode_UNDEFINED_def)

section \<open>The scale registry\<close>

lemma getScaleById_cases:
  "getScaleById i =
     (if i = ''log'' then Inr LOG
      else if i = ''linear'' then Inr LINEAR
      else Inl (Throw (''Invalid scale id: '' @ i)))"
  by (simp add: getScaleById_def Scale_entries_def)

text \<open>
  Claim C4, as amended. The registry holds exactly two scales, with the identifiers
  \<open>linear\<close> and \<open>log\<close>: \<open>getScaleById\<close> returns the linear scale (the identity, accepting
  the finite numbers) for \<open>linear\<close>, the base-10 logarithm scale (accepting the finite
  numbers above 0) for \<open>log\<close>, and throws the invalid-scale-id message for every other
  identifier.
\<close>

theorem getScaleById_registry:
  "map Scale_id Scale_entries = [''log'', ''linear'']
   \<and> getScaleById ''linear'' = Inr LINEAR
   \<and> getScaleById ''log'' = Inr LOG
   \<and> (i \<noteq> ''linear'' \<and> i \<noteq> ''log'' \<longrightarrow> getScaleById i = Inl (Throw (''Invalid scale id: '' @ i)))
   \<and> Scale_function LINEAR x = x
   \<and> Scale_filter LINEAR n = is_finite n
   \<and> Scale_filter LOG n = (is_finite n \<and> 0 < real_of_num n)
   \<and> (0 < r \<longrightarrow> Scale_function LOG (JNum (Num r)) = JNum (Num (log 10 r)))"
  by (cases n) (simp_all add: getScaleById_cases Scale_entries_def js_gt_def)

theorem getScaleById_registry_witness:
  "getScaleById ''cubic'' = Inl (Throw ''Invalid scale id: cubic'')
   \<and> Scale_function LOG (JNum (Num 10)) = JNum (Num 1)
   \<and> Scale_filter LOG (Num 10) \<and> \<not> Scale_filter LOG (Num 0) \<and> \<not> Scale_filter LINEAR PInf"
  using getScaleById_registry [of "''cubic''" "JNull" "Num 10" 10]
    getScaleById_registry [of "''cubic''" "JNull" "Num 0" 10]
    getScaleById_registry [of "''cubic''" "JNull" "PInf" 10]
  by simp

text \<open>The identifier \<open>log10\<close> is not registered.\<close>

theorem getScaleById_log10_counterexample:
  "getScaleById ''log10'' = Inl (Throw ''Invalid scale id: log10'')"
  by (simp add: getScaleById_cases)

section \<open>Cancelling a task\<close>

text \<open>
  Claim C5, as amended. When the first of two consecutive \<open>_cancelTask\<close> calls for a kind
  did not start a deferred settings load of that same kind (the kind is not
  \<open>LOAD_SETTINGS\<close>, or no settings payload is pending), the second call changes nothing but
  the event log (the events and what their subscribers find): it publishes \<open>no-tasks\<close>
  once more when the set of running tasks is empty, and nothing otherwise. A call on an
  idle workspace, whose task set is empty before and after, publishes \<open>no-tasks\<close> as
  well.
\<close>

theorem cancelTask_twice:
  assumes "k \<noteq> LOAD_SETTINGS \<or> w_settingsToLoad s = None"
  shows "cancelTask k (cancelTask k s) =
           (if w_tasks (cancelTask k s) = []
            then (cancelTask k s)\<lparr> w_events := w_events (cancelTask k s) @ [NO_TASKS],
                   w_observed := w_observed (cancelTask k s) @ [WorkspaceCore.truncate (cancelTask k s)] \<rparr>
            else cancelTask k s)
         \<and> (w_tasks s = [] \<and> w_settingsToLoad s = None \<longrightarrow>
              cancelTask k s = s\<lparr> w_events := w_events s @ [NO_TASKS],
                                  w_observed := w_observed s @ [WorkspaceCore.truncate s] \<rparr>)"
proof (cases "w_tasks (cancelTask k s) = []")
  case True
  moreover have "w_settingsToLoad (cancelTask k s) = None"
    using True by (simp add: cancelTask_tasks cancelTask_settingsToLoad split: if_splits)
  ultimately show ?thesis
    by (simp add: cancelTask_idle)
next
  case False
  have "TaskType_key k \<notin> fst ` set (w_tasks (cancelTask k s))"
    using assms
    by (auto simp: cancelTask_tasks AList.delete_notin_dom key_load_settings split: option.splits)
  with False show ?thesis
    by (simp add: cancelTask_absent cancelTask_idle)
qed

theorem cancelTask_twice_witness:
  "LOAD_IMAGE \<noteq> LOAD_SETTINGS
   \<and> cancelTask LOAD_IMAGE (cancelTask LOAD_IMAGE (Workspace_new 0)) =
       (Workspace_new 0)\<lparr> w_events := [NO_TASKS, NO_TASKS],
           w_observed := [WorkspaceCore.truncate (Workspace_new 0),
                          WorkspaceCore.truncate (Workspace_new 0)] \<rparr>"
  using cancelTask_twice [of LOAD_IMAGE "Workspace_new 0"]
  by (simp add: cancelTask_idle)

text \<open>
  On an idle workspace a call publishes \<open>no-tasks\<close>; two calls after starting an image
  load publish it twice; and with a settings load running and a second one pending, the
  first call starts the pending load and the second call terminates it.
\<close>

theorem cancelTask_twice_counterexample:
  "w_events (cancelTask LOAD_IMAGE (Workspace_new 0)) = [NO_TASKS]
   \<and> w_events (cancelTask LOAD_IMAGE (cancelTask LOAD_IMAGE
        (doTask LOAD_IMAGE (File_arg (Some ''a.png'')) (Workspace_new 0)))) = [NO_TASKS, NO_TASKS]
   \<and> w_tasks (cancelTask LOAD_SETTINGS
        (loadSettings [''b.json''] (loadSettings [''a.json''] (Workspace_new 0)))) =
       [(''load-settings'', \<lparr> task_args = File_arg (Some ''b.json''), task_posted = False \<rparr>)]
   \<and> w_tasks (cancelTask LOAD_SETTINGS (cancelTask LOAD_SETTINGS
        (loadSettings [''b.json''] (loadSettings [''a.json''] (Workspace_new 0))))) = []"
  by (simp add: task_eqs doTask_fresh loadSettings_def first_file_def Workspace_new_def)

section \<open>Deferred settings\<close>

lemma settings_completed_eq:
  "settings_completed r s =
     (let s' = worker_completed LOAD_SETTINGS s
      in s'\<lparr> w_loadedSettings := Some r, w_events := w_events s' @ [SETTINGS_CHANGE],
            w_observed := w_observed s' @
              [WorkspaceCore.truncate (s'\<lparr> w_loadedSettings := Some r \<rparr>)] \<rparr>)"
  by (simp add: settings_completed_def settings_then_def notify_eq Let_def)

text \<open>
  Claim C6. \<open>loadSettings\<close> with a task running only stores the payload, replacing an
  older pending one; with no task running it starts the \<open>LOAD_SETTINGS\<close> task and clears
  the pending slot. \<open>_loadPendingSettings\<close> starts the task exactly when no task is
  running and a payload is pending. A \<open>_cancelTask\<close> that leaves the task set empty
  publishes \<open>no-tasks\<close>, which starts the pending load and clears the slot; one that leaves
  other tasks running starts nothing and keeps the payload. When the settings task
  completes, the loaded settings are stored and \<open>settings-change\<close> is the last event
  published.
\<close>

theorem settings_deferral:
  "(w_tasks s \<noteq> [] \<longrightarrow> loadSettings blob s = s\<lparr> w_settingsToLoad := Some (first_file blob) \<rparr>)
   \<and> (w_tasks s = [] \<longrightarrow>
        loadSettings blob s =
          s\<lparr> w_tasks := [(''load-settings'',
                 \<lparr> task_args = File_arg (first_file blob), task_posted = False \<rparr>)],
             w_settingsToLoad := None \<rparr>)
   \<and> (w_tasks s = [] \<and> w_settingsToLoad s = Some b \<longrightarrow>
        loadPendingSettings s =
          s\<lparr> w_tasks := [(''load-settings'', \<lparr> task_args = File_arg b, task_posted = False \<rparr>)],
             w_settingsToLoad := None \<rparr>)
   \<and> (w_tasks s \<noteq> [] \<or> w_settingsToLoad s = None \<longrightarrow> loadPendingSettings s = s)
   \<and> (AList.delete (TaskType_key k) (w_tasks s) = [] \<and> w_settingsToLoad s = Some b \<longrightarrow>
        w_tasks (cancelTask k s) =
          [(''load-settings'', \<lparr> task_args = File_arg b, task_posted = False \<rparr>)]
        \<and> w_settingsToLoad (cancelTask k s) = None
        \<and> w_events (cancelTask k s) = w_events s @ [NO_TASKS])
   \<and> (AList.delete (TaskType_key k) (w_tasks s) \<noteq> [] \<longrightarrow>
        w_tasks (cancelTask k s) = AList.delete (TaskType_key k) (w_tasks s)
        \<and> w_settingsToLoad (cancelTask k s) = w_settingsToLoad s
        \<and> w_events (cancelTask k s) = w_events s)
   \<and> w_loadedSettings (settings_completed r s) = Some r
   \<and> last (w_events (settings_completed r s)) = SETTINGS_CHANGE"
  by (simp add: loadSettings_def loadPendingSettings_eq cancelTask_tasks cancelTask_settingsToLoad
        cancelTask_events settings_completed_eq Let_def split: option.splits)

text \<open>
  A measures load is running when the settings are requested: the request is stored,
  and cancelling the measures task, as its completion does, starts the settings load.
\<close>

lemma measures_running:
  "loadIntensities [''m.csv''] (Workspace_new 0) =
     (Workspace_new 0)\<lparr> w_tasks := [(''load-measures'',
        \<lparr> task_args = File_arg (Some ''m.csv''), task_posted = False \<rparr>)] \<rparr>"
  by (simp add: loadIntensities_def doTask_fresh Workspace_new_def first_file_def)

theorem settings_deferral_witness:
  "w_tasks (loadIntensities [''m.csv''] (Workspace_new 0)) \<noteq> []
   \<and> loadSettings [''s.json''] (loadIntensities [''m.csv''] (Workspace_new 0)) =
       (loadIntensities [''m.csv''] (Workspace_new 0))\<lparr> w_settingsToLoad := Some (Some ''s.json'') \<rparr>
   \<and> w_tasks (cancelTask LOAD_MEASURES
         (loadSettings [''s.json''] (loadIntensities [''m.csv''] (Workspace_new 0)))) =
       [(''load-settings'', \<lparr> task_args = File_arg (Some ''s.json''), task_posted = False \<rparr>)]
   \<and> w_settingsToLoad (cancelTask LOAD_MEASURES
         (loadSettings [''s.json''] (loadIntensities [''m.csv''] (Workspace_new 0)))) = None
   \<and> w_events (cancelTask LOAD_MEASURES
         (loadSettings [''s.json''] (loadIntensities [''m.csv''] (Workspace_new 0)))) = [NO_TASKS]
   \<and> w_loadedSettings (settings_completed ''S'' (Workspace_new 0)) = Some ''S''"
  using settings_deferral [of "loadIntensities [''m.csv''] (Workspace_new 0)" "[''s.json'']"
      "Some ''s.json''" LOAD_MEASURES "''S''"]
    settings_deferral [of "(loadIntensities [''m.csv''] (Workspace_new 0))\<lparr> w_settingsToLoad := Some (Some ''s.json'') \<rparr>"
      "[''s.json'']" "Some ''s.json''" LOAD_MEASURES "''S''"]
    settings_deferral [of "Workspace_new 0" "[]" "None" LOAD_MEASURES "''S''"]
  by (simp add: measures_running first_file_def)

section \<open>The mode setter\<close>

lemma cancelTask_frame [simp]:
  "w_mode (cancelTask k s) = w_mode s"
  "w_errors (cancelTask k s) = w_errors s"
  "w_spots (cancelTask k s) = w_spots s"
  "w_measures (cancelTask k s) = w_measures s"
  "w_activeMeasure (cancelTask k s) = w_activeMeasure s"
  "w_colorMap (cancelTask k s) = w_colorMap s"
  "w_scale (cancelTask k s) = w_scale s"
  "w_hotspotQuantile (cancelTask k s) = w_hotspotQuantile s"
  "w_autoMinMax (cancelTask k s) = w_autoMinMax s"
  "w_minValue (cancelTask k s) = w_minValue s"
  "w_maxValue (cancelTask k s) = w_maxValue s"
  "w_scene3d (cancelTask k s) = w_scene3d s"
  "w_scene2d (cancelTask k s) = w_scene2d s"
  "w_currentScene (cancelTask k s) = w_currentScene s"
  "w_loadedSettings (cancelTask k s) = w_loadedSettings s"
  "w_status (cancelTask k s) = w_status s"
  by (simp_all add: task_eqs Let_def split: option.splits)

lemma dom_delete: "fst ` set (AList.delete k al) = fst ` set al - {k}"
proof -
  have "fst ` set (AList.delete k al) = set (map fst (AList.delete k al))"
    by simp
  also have "\<dots> = set (removeAll k (map fst al))"
    by (simp only: AList.delete_keys)
  also have "\<dots> = fst ` set al - {k}"
    by simp
  finally show ?thesis .
qed

lemma keys_cancelTask:
  "fst ` set (w_tasks (cancelTask k s))
     \<subseteq> (fst ` set (w_tasks s) - {TaskType_key k}) \<union> {''load-settings''}"
  by (cases "w_settingsToLoad s") (auto simp: cancelTask_tasks dom_delete)

lemma cancelTask_key_gone:
  assumes "k' \<noteq> LOAD_SETTINGS" and "TaskType_key k' \<notin> fst ` set (w_tasks s) \<or> k = k'"
  shows "TaskType_key k' \<notin> fst ` set (w_tasks (cancelTask k s))"
proof
  assume "TaskType_key k' \<in> fst ` set (w_tasks (cancelTask k s))"
  then have "TaskType_key k' \<in> (fst ` set (w_tasks s) - {TaskType_key k}) \<union> {''load-settings''}"
    using keys_cancelTask [of k s] by blast
  then have "TaskType_key k' \<in> fst ` set (w_tasks s) \<and> TaskType_key k' \<noteq> TaskType_key k"
    using assms(1) by (simp add: key_load_settings)
  with assms(2) show False
    by blast
qed

lemma cancelTask_events_cases:
  "w_events (cancelTask k s) = w_events s \<or> w_events (cancelTask k s) = w_events s @ [NO_TASKS]"
  by (simp add: cancelTask_events)

lemma set_mode_same: "set_mode (w_mode s) s = s"
  by (simp add: set_mode_def)

lemma set_mode_2D:
  "w_mode s \<noteq> MODE_2D \<Longrightarrow>
   set_mode MODE_2D s =
     notify MODE_CHANGE (cancelTask LOAD_MESH
       (s\<lparr> w_mode := MODE_2D,
           w_scene2d := (w_scene2d s)\<lparr> s2_spots := w_spots s \<rparr>,
           w_currentScene := Some Scene2D_ref,
           w_scene3d := (w_scene3d s)\<lparr> s3_geometry := None, s3_spots := None \<rparr> \<rparr>))"
  by (simp add: set_mode_def Let_def MODE_2D_def MODE_3D_def)

lemma set_mode_3D:
  "w_mode s \<noteq> MODE_3D \<Longrightarrow>
   set_mode MODE_3D s =
     (let s1 = cancelTask LOAD_IMAGE
                 (s\<lparr> w_mode := MODE_3D,
                     w_scene2d := (w_scene2d s)\<lparr> s2_image := None, s2_spots := None \<rparr> \<rparr>)
      in notify MODE_CHANGE
           (s1\<lparr> w_scene3d := (w_scene3d s)\<lparr> s3_spots := w_spots s \<rparr>,
                w_currentScene := Some Scene3D_ref \<rparr>))"
  by (simp add: set_mode_def Let_def MODE_2D_def MODE_3D_def Scene2D_resetImage_def)

lemma set_mode_other:
  "w_mode s \<noteq> v \<Longrightarrow> v \<noteq> MODE_2D \<Longrightarrow> v \<noteq> MODE_3D \<Longrightarrow>
   set_mode v s =
     (let s1 = cancelTask LOAD_IMAGE
                 (s\<lparr> w_mode := v,
                     w_scene2d := (w_scene2d s)\<lparr> s2_image := None, s2_spots := None \<rparr> \<rparr>)
      in notify MODE_CHANGE
           (cancelTask LOAD_MESH
              (s1\<lparr> w_scene3d := (w_scene3d s)\<lparr> s3_geometry := None, s3_spots := None \<rparr> \<rparr>)))"
  by (simp add: set_mode_def Let_def Scene2D_resetImage_def)


lemma notify_MODE_CHANGE:
  "notify MODE_CHANGE s = s\<lparr> w_events := w_events s @ [MODE_CHANGE],
                            w_observed := w_observed s @ [WorkspaceCore.truncate s] \<rparr>"
  by (simp add: notify_eq)

lemma set_mode_cases:
  assumes "v \<noteq> w_mode s"
  obtains (to2D) "v = MODE_2D" "w_mode s \<noteq> MODE_2D"
    | (to3D) "v = MODE_3D" "w_mode s \<noteq> MODE_3D"
    | (other) "v \<noteq> MODE_2D" "v \<noteq> MODE_3D" "w_mode s \<noteq> v"
  using assms by (cases "v = MODE_2D"; cases "v = MODE_3D") auto

lemma set_mode_events:
  assumes "v \<noteq> w_mode s"
  shows "\<exists>ns. w_events (set_mode v s) = w_events s @ ns @ [MODE_CHANGE] \<and> set ns \<subseteq> {NO_TASKS}"
proof -
  have one: "\<exists>ns. w_events (cancelTask k t) = w_events t @ ns \<and> set ns \<subseteq> {NO_TASKS}" for k t
    by (simp add: cancelTask_events)
  from assms show ?thesis
  proof (cases rule: set_mode_cases)
    case to2D
    then show ?thesis
      using one [of LOAD_MESH "s\<lparr> w_mode := MODE_2D,
           w_scene2d := (w_scene2d s)\<lparr> s2_spots := w_spots s \<rparr>,
           w_currentScene := Some Scene2D_ref,
           w_scene3d := (w_scene3d s)\<lparr> s3_geometry := None, s3_spots := None \<rparr> \<rparr>"]
      by (auto simp: set_mode_2D notify_MODE_CHANGE)
  next
    case to3D
    then show ?thesis
      using one [of LOAD_IMAGE "s\<lparr> w_mode := MODE_3D,
                     w_scene2d := (w_scene2d s)\<lparr> s2_image := None, s2_spots := None \<rparr> \<rparr>"]
      by (auto simp: set_mode_3D notify_MODE_CHANGE Let_def)
  next
    case other
    let ?s1 = "cancelTask LOAD_IMAGE
                 (s\<lparr> w_mode := v,
                     w_scene2d := (w_scene2d s)\<lparr> s2_image := None, s2_spots := None \<rparr> \<rparr>)"
    let ?s2 = "?s1\<lparr> w_scene3d := (w_scene3d s)\<lparr> s3_geometry := None, s3_spots := None \<rparr> \<rparr>"
    obtain n1 where n1: "w_events ?s1 = w_events s @ n1" "set n1 \<subseteq> {NO_TASKS}"
      using one [of LOAD_IMAGE "s\<lparr> w_mode := v,
                     w_scene2d := (w_scene2d s)\<lparr> s2_image := None, s2_spots := None \<rparr> \<rparr>"]
      by auto
    obtain n2 where n2: "w_events (cancelTask LOAD_MESH ?s2) = w_events ?s2 @ n2" "set n2 \<subseteq> {NO_TASKS}"
      using one [of LOAD_MESH ?s2] by auto
    have "w_events (set_mode v s) = w_events s @ (n1 @ n2) @ [MODE_CHANGE]"
      using other n1 n2 by (simp add: set_mode_other notify_MODE_CHANGE Let_def)
    moreover have "set (n1 @ n2) \<subseteq> {NO_TASKS}"
      using n1 n2 by simp
    ultimately show ?thesis
      by blast
  qed
qed


lemma load_image_gone:
  "''load-image'' \<notin> fst ` set (w_tasks s) \<or> k = LOAD_IMAGE \<Longrightarrow>
   ''load-image'' \<notin> fst ` set (w_tasks (cancelTask k s))"
  using cancelTask_key_gone [of LOAD_IMAGE s k] by simp

lemma load_mesh_gone:
  "''load-mesh'' \<notin> fst ` set (w_tasks s) \<or> k = LOAD_MESH \<Longrightarrow>
   ''load-mesh'' \<notin> fst ` set (w_tasks (cancelTask k s))"
  using cancelTask_key_gone [of LOAD_MESH s k] by simp

lemma Scene2D_clear_id:
  "s2_image sc = None \<Longrightarrow> s2_spots sc = None \<Longrightarrow> sc\<lparr> s2_image := None, s2_spots := None \<rparr> = sc"
  by (cases sc) simp

lemma Scene3D_clear_id:
  "s3_geometry sc = None \<Longrightarrow> s3_spots sc = None \<Longrightarrow>
   sc\<lparr> s3_geometry := None, s3_spots := None \<rparr> = sc"
  by (cases sc) simp

lemma set_mode_state:
  assumes "v \<noteq> w_mode s"
  shows "w_mode (set_mode v s) = v
    \<and> (w_mode s = MODE_2D \<longrightarrow>
         s2_image (w_scene2d (set_mode v s)) = None \<and> s2_spots (w_scene2d (set_mode v s)) = None
         \<and> ''load-image'' \<notin> fst ` set (w_tasks (set_mode v s)))
    \<and> (w_mode s = MODE_3D \<longrightarrow>
         s3_geometry (w_scene3d (set_mode v s)) = None \<and> s3_spots (w_scene3d (set_mode v s)) = None
         \<and> ''load-mesh'' \<notin> fst ` set (w_tasks (set_mode v s)))
    \<and> (v = MODE_2D \<longrightarrow>
         s2_spots (w_scene2d (set_mode v s)) = w_spots s
         \<and> s2_image (w_scene2d (set_mode v s)) = s2_image (w_scene2d s)
         \<and> w_currentScene (set_mode v s) = Some Scene2D_ref)
    \<and> (v = MODE_3D \<longrightarrow>
         s3_spots (w_scene3d (set_mode v s)) = w_spots s
         \<and> s3_geometry (w_scene3d (set_mode v s)) = s3_geometry (w_scene3d s)
         \<and> w_currentScene (set_mode v s) = Some Scene3D_ref)
    \<and> scenes_clear (set_mode v s)
    \<and> (scenes_clear s \<and> w_mode s \<noteq> MODE_2D \<and> v \<noteq> MODE_2D \<longrightarrow>
         w_scene2d (set_mode v s) = w_scene2d s)
    \<and> (scenes_clear s \<and> w_mode s \<noteq> MODE_3D \<and> v \<noteq> MODE_3D \<longrightarrow>
         w_scene3d (set_mode v s) = w_scene3d s)"
  using assms
proof (cases rule: set_mode_cases)
  case to2D
  then show ?thesis
    by (simp add: set_mode_2D notify_MODE_CHANGE scenes_clear_def load_mesh_gone Scene3D_clear_id
          )
next
  case to3D
  then show ?thesis
    by (simp add: set_mode_3D notify_MODE_CHANGE scenes_clear_def load_image_gone Scene2D_clear_id
          Let_def)
next
  case other
  then show ?thesis
    by (simp add: set_mode_other notify_MODE_CHANGE scenes_clear_def load_image_gone load_mesh_gone
          Scene2D_clear_id Scene3D_clear_id Let_def)
qed

lemma set_mode_frame:
  "w_spots (set_mode v s) = w_spots s \<and> w_measures (set_mode v s) = w_measures s
   \<and> w_activeMeasure (set_mode v s) = w_activeMeasure s
   \<and> w_colorMap (set_mode v s) = w_colorMap s \<and> w_scale (set_mode v s) = w_scale s
   \<and> w_hotspotQuantile (set_mode v s) = w_hotspotQuantile s
   \<and> w_autoMinMax (set_mode v s) = w_autoMinMax s
   \<and> w_minValue (set_mode v s) = w_minValue s \<and> w_maxValue (set_mode v s) = w_maxValue s
   \<and> w_errors (set_mode v s) = w_errors s \<and> w_status (set_mode v s) = w_status s
   \<and> w_loadedSettings (set_mode v s) = w_loadedSettings s"
  by (simp add: set_mode_def notify_MODE_CHANGE Let_def)

lemma cancelTask_terminated:
  "w_terminated (cancelTask k s) =
     w_terminated s @ (if TaskType_key k \<in> fst ` set (w_tasks s) then [TaskType_key k] else [])"
  by (simp add: task_eqs Let_def split: option.splits)

lemma remaining_2D: "remaining_tasks MODE_2D ts = AList.delete ''load-mesh'' ts"
  by (induction ts) (auto simp: remaining_tasks_def cancelled_keys_def)

lemma remaining_3D: "remaining_tasks MODE_3D ts = AList.delete ''load-image'' ts"
  by (induction ts) (auto simp: remaining_tasks_def cancelled_keys_def)

lemma remaining_other:
  "v \<noteq> MODE_2D \<Longrightarrow> v \<noteq> MODE_3D \<Longrightarrow>
   remaining_tasks v ts = AList.delete ''load-mesh'' (AList.delete ''load-image'' ts)"
  by (induction ts) (auto simp: remaining_tasks_def cancelled_keys_def)

lemma delete_empty_notin: "AList.delete k ts = [] \<Longrightarrow> k' \<noteq> k \<Longrightarrow> k' \<notin> fst ` set ts"
  using dom_delete [of k ts] by auto

lemma mesh_after_image:
  "''load-mesh'' \<in> fst ` set (w_tasks (cancelTask LOAD_IMAGE s)) \<longleftrightarrow>
   ''load-mesh'' \<in> fst ` set (w_tasks s)"
proof (cases "AList.delete ''load-image'' (w_tasks s) = []")
  case True
  then have "''load-mesh'' \<notin> fst ` set (w_tasks s)"
    by (rule delete_empty_notin) simp
  then show ?thesis
    using True by (cases "w_settingsToLoad s") (simp_all add: cancelTask_tasks)
next
  case False
  then show ?thesis
    by (simp add: cancelTask_tasks dom_delete)
qed

lemma set_mode_runner:
  assumes "v \<noteq> w_mode s"
  shows "w_tasks (set_mode v s) =
           (if remaining_tasks v (w_tasks s) = []
            then (case w_settingsToLoad s of
                    None \<Rightarrow> []
                  | Some blob \<Rightarrow> [(''load-settings'', \<lparr> task_args = File_arg blob, task_posted = False \<rparr>)])
            else remaining_tasks v (w_tasks s))
    \<and> w_settingsToLoad (set_mode v s) =
           (if remaining_tasks v (w_tasks s) = [] then None else w_settingsToLoad s)
    \<and> w_terminated (set_mode v s) =
           w_terminated s @ filter (\<lambda>k. k \<in> fst ` set (w_tasks s)) (cancelled_keys v)
    \<and> last (w_observed (set_mode v s)) = WorkspaceCore.truncate (set_mode v s)"
  using assms
proof (cases rule: set_mode_cases)
  case to2D
  then show ?thesis
    by (simp add: set_mode_2D notify_MODE_CHANGE cancelTask_tasks cancelTask_settingsToLoad
          cancelTask_terminated remaining_2D cancelled_keys_def)
next
  case to3D
  then show ?thesis
    by (simp add: set_mode_3D notify_MODE_CHANGE cancelTask_tasks cancelTask_settingsToLoad
          cancelTask_terminated remaining_3D cancelled_keys_def Let_def)
next
  case other
  let ?t = "s\<lparr> w_mode := v,
               w_scene2d := (w_scene2d s)\<lparr> s2_image := None, s2_spots := None \<rparr> \<rparr>"
  let ?s1 = "cancelTask LOAD_IMAGE ?t"
  let ?u = "?s1\<lparr> w_scene3d := (w_scene3d s)\<lparr> s3_geometry := None, s3_spots := None \<rparr> \<rparr>"
  have sm: "set_mode v s = notify MODE_CHANGE (cancelTask LOAD_MESH ?u)"
    using other by (simp add: set_mode_other Let_def)
  have rem: "remaining_tasks v (w_tasks s) =
      AList.delete ''load-mesh'' (AList.delete ''load-image'' (w_tasks s))"
    using other by (simp add: remaining_other)
  have ck: "cancelled_keys v = [''load-image'', ''load-mesh'']"
    using other by (simp add: cancelled_keys_def)
  have mesh: "''load-mesh'' \<in> fst ` set (w_tasks ?s1) \<longleftrightarrow> ''load-mesh'' \<in> fst ` set (w_tasks s)"
    using mesh_after_image [of ?t] by simp
  have tm: "w_terminated (set_mode v s) =
      w_terminated s @ filter (\<lambda>k. k \<in> fst ` set (w_tasks s)) (cancelled_keys v)"
    by (simp add: sm notify_MODE_CHANGE cancelTask_terminated mesh ck)
  have obs: "last (w_observed (set_mode v s)) = WorkspaceCore.truncate (set_mode v s)"
    by (simp add: sm notify_MODE_CHANGE)
  have tp: "w_tasks (set_mode v s) =
           (if remaining_tasks v (w_tasks s) = []
            then (case w_settingsToLoad s of
                    None \<Rightarrow> []
                  | Some blob \<Rightarrow> [(''load-settings'', \<lparr> task_args = File_arg blob, task_posted = False \<rparr>)])
            else remaining_tasks v (w_tasks s))
    \<and> w_settingsToLoad (set_mode v s) =
           (if remaining_tasks v (w_tasks s) = [] then None else w_settingsToLoad s)"
  proof (cases "AList.delete ''load-image'' (w_tasks s) = []")
    case True
    then show ?thesis
      by (cases "w_settingsToLoad s")
         (simp_all add: sm notify_MODE_CHANGE cancelTask_tasks cancelTask_settingsToLoad rem)
  next
    case False
    then show ?thesis
      by (simp add: sm notify_MODE_CHANGE cancelTask_tasks cancelTask_settingsToLoad rem)
  qed
  show ?thesis
    using tp tm obs by blast
qed


lemma set_mode_scenes:
  assumes "v \<noteq> w_mode s"
  shows "w_scene2d (set_mode v s) =
           (if v = MODE_2D then (w_scene2d s)\<lparr> s2_spots := w_spots s \<rparr>
            else (w_scene2d s)\<lparr> s2_image := None, s2_spots := None \<rparr>)
    \<and> w_scene3d (set_mode v s) =
           (if v = MODE_3D then (w_scene3d s)\<lparr> s3_spots := w_spots s \<rparr>
            else (w_scene3d s)\<lparr> s3_geometry := None, s3_spots := None \<rparr>)
    \<and> w_currentScene (set_mode v s) =
           (if v = MODE_2D then Some Scene2D_ref
            else if v = MODE_3D then Some Scene3D_ref else w_currentScene s)"
  using assms
proof (cases rule: set_mode_cases)
  case to2D
  then show ?thesis
    by (simp add: set_mode_2D notify_MODE_CHANGE)
next
  case to3D
  then show ?thesis
    by (simp add: set_mode_3D notify_MODE_CHANGE Let_def)
next
  case other
  then show ?thesis
    by (simp add: set_mode_other notify_MODE_CHANGE Let_def)
qed

lemma loaded_fields [simp]:
  "w_mode loaded_workspace = Mode_UNDEFINED"
  "w_tasks loaded_workspace = []"
  "w_settingsToLoad loaded_workspace = None"
  "w_terminated loaded_workspace = [''load-measures'']"
  "w_events loaded_workspace = [STATUS_CHANGE, NO_TASKS, INTENSITIES_CHANGE]"
  "w_activeMeasure loaded_workspace = Null"
  "w_minValue loaded_workspace = JNum (Num 0)"
  "w_maxValue loaded_workspace = JNum (Num 0)"
  "w_scale loaded_workspace = LINEAR"
  "w_autoMinMax loaded_workspace"
  "w_currentScene loaded_workspace = None"
  "w_spots loaded_workspace =
     Some (map (\<lambda>n. (loaded_spot n)\<lparr> spot_scale := JNum (Num 1),
            spot_color := ''ffffff'', spot_visibility := JNum (Num 1) \<rparr>) [''a'', ''b''])"
  by (simp_all add: loaded_workspace_def measures_completed_def measures_then_def
        worker_completed_def setStatus_def loadIntensities_def doTask_fresh task_eqs first_file_def
        Workspace_new_def Let_def)

lemma image_loading_fields [simp]:
  "w_mode image_loading_workspace = MODE_2D"
  "w_tasks image_loading_workspace =
     [(''load-image'', \<lparr> task_args = File_arg (Some ''i.png''), task_posted = True \<rparr>)]"
  "w_settingsToLoad image_loading_workspace = Some (Some ''s.json'')"
  "w_terminated image_loading_workspace = [''load-measures'']"
  "w_events image_loading_workspace =
     [STATUS_CHANGE, NO_TASKS, INTENSITIES_CHANGE, NO_TASKS, MODE_CHANGE]"
  "w_spots image_loading_workspace = w_spots loaded_workspace"
  "s2_spots (w_scene2d image_loading_workspace) = w_spots loaded_workspace"
  "w_currentScene image_loading_workspace = Some Scene2D_ref"
proof -
  have m: "w_mode loaded_workspace \<noteq> MODE_2D"
    by simp
  have f: "w_tasks (set_mode MODE_2D loaded_workspace) = []"
    "w_settingsToLoad (set_mode MODE_2D loaded_workspace) = None"
    "w_terminated (set_mode MODE_2D loaded_workspace) = [''load-measures'']"
    "w_events (set_mode MODE_2D loaded_workspace) =
       [STATUS_CHANGE, NO_TASKS, INTENSITIES_CHANGE, NO_TASKS, MODE_CHANGE]"
    "w_mode (set_mode MODE_2D loaded_workspace) = MODE_2D"
    "w_spots (set_mode MODE_2D loaded_workspace) = w_spots loaded_workspace"
    "s2_spots (w_scene2d (set_mode MODE_2D loaded_workspace)) = w_spots loaded_workspace"
    "w_currentScene (set_mode MODE_2D loaded_workspace) = Some Scene2D_ref"
    by (simp_all add: set_mode_2D [OF m] notify_MODE_CHANGE cancelTask_tasks
          cancelTask_settingsToLoad cancelTask_terminated cancelTask_events)
  let ?i = "loadImage [''i.png''] loaded_workspace"
  have g: "w_tasks ?i = [(''load-image'', \<lparr> task_args = File_arg (Some ''i.png''), task_posted = True \<rparr>)]"
    "w_settingsToLoad ?i = None" "w_terminated ?i = [''load-measures'']"
    "w_events ?i = [STATUS_CHANGE, NO_TASKS, INTENSITIES_CHANGE, NO_TASKS, MODE_CHANGE]"
    "w_mode ?i = MODE_2D" "w_spots ?i = w_spots loaded_workspace"
    "s2_spots (w_scene2d ?i) = w_spots loaded_workspace"
    "w_currentScene ?i = Some Scene2D_ref"
    by (simp_all add: loadImage_def Let_def doTask_fresh f first_file_def Scene2D_resetImage_def)
  show "w_mode image_loading_workspace = MODE_2D"
    "w_tasks image_loading_workspace =
       [(''load-image'', \<lparr> task_args = File_arg (Some ''i.png''), task_posted = True \<rparr>)]"
    "w_settingsToLoad image_loading_workspace = Some (Some ''s.json'')"
    "w_terminated image_loading_workspace = [''load-measures'']"
    "w_events image_loading_workspace =
       [STATUS_CHANGE, NO_TASKS, INTENSITIES_CHANGE, NO_TASKS, MODE_CHANGE]"
    "w_spots image_loading_workspace = w_spots loaded_workspace"
    "s2_spots (w_scene2d image_loading_workspace) = w_spots loaded_workspace"
    "w_currentScene image_loading_workspace = Some Scene2D_ref"
    by (simp_all add: image_loading_workspace_def loadSettings_def loadPendingSettings_eq g
          first_file_def)
qed

text \<open>
  Claim C7, as amended. Setting the mode to its current value changes nothing. Any other
  assignment sets the mode; it clears the state of every mode other than the one
  entered (for \<open>MODE_2D\<close> the image and the scene spots, for \<open>MODE_3D\<close> the geometry and
  the scene spots) and cancels the load task of each of them; the scene of the mode
  entered receives the spots of the workspace, keeps its image or geometry and becomes
  the current scene. Where the state of the modes the workspace is not in is clear,
  which every transition establishes, the scene neither left nor entered is unchanged,
  so that what is cleared is the state of the mode left. Through the cancellations the
  setter acts on the task runner as \<open>_cancelTask\<close> does: the cancelled load tasks are
  terminated and removed, and when no task is left running \<open>no-tasks\<close> is published,
  which starts a pending settings load and clears the pending slot. \<open>mode-change\<close> is
  published exactly once, as the last event, and its subscribers find the workspace as
  the setter leaves it. Spots, measures and the mapping parameters are untouched.
\<close>

theorem set_mode_transition:
  "set_mode (w_mode s) s = s
   \<and> (v \<noteq> w_mode s \<longrightarrow>
        w_mode (set_mode v s) = v
      \<and> last (w_events (set_mode v s)) = MODE_CHANGE
      \<and> count_list (w_events (set_mode v s)) MODE_CHANGE = Suc (count_list (w_events s) MODE_CHANGE)
      \<and> take (length (w_events s)) (w_events (set_mode v s)) = w_events s
      \<and> last (w_observed (set_mode v s)) = WorkspaceCore.truncate (set_mode v s)
      \<and> w_scene2d (set_mode v s) =
           (if v = MODE_2D then (w_scene2d s)\<lparr> s2_spots := w_spots s \<rparr>
            else (w_scene2d s)\<lparr> s2_image := None, s2_spots := None \<rparr>)
      \<and> w_scene3d (set_mode v s) =
           (if v = MODE_3D then (w_scene3d s)\<lparr> s3_spots := w_spots s \<rparr>
            else (w_scene3d s)\<lparr> s3_geometry := None, s3_spots := None \<rparr>)
      \<and> w_currentScene (set_mode v s) =
           (if v = MODE_2D then Some Scene2D_ref
            else if v = MODE_3D then Some Scene3D_ref else w_currentScene s)
      \<and> w_tasks (set_mode v s) =
           (if remaining_tasks v (w_tasks s) = []
            then (case w_settingsToLoad s of
                    None \<Rightarrow> []
                  | Some blob \<Rightarrow> [(''load-settings'', \<lparr> task_args = File_arg blob, task_posted = False \<rparr>)])
            else remaining_tasks v (w_tasks s))
      \<and> w_settingsToLoad (set_mode v s) =
           (if remaining_tasks v (w_tasks s) = [] then None else w_settingsToLoad s)
      \<and> w_terminated (set_mode v s) =
           w_terminated s @ filter (\<lambda>k. k \<in> fst ` set (w_tasks s)) (cancelled_keys v)
      \<and> (w_mode s = MODE_2D \<longrightarrow>
           s2_image (w_scene2d (set_mode v s)) = None \<and> s2_spots (w_scene2d (set_mode v s)) = None
           \<and> ''load-image'' \<notin> fst ` set (w_tasks (set_mode v s)))
      \<and> (w_mode s = MODE_3D \<longrightarrow>
           s3_geometry (w_scene3d (set_mode v s)) = None \<and> s3_spots (w_scene3d (set_mode v s)) = None
           \<and> ''load-mesh'' \<notin> fst ` set (w_tasks (set_mode v s)))
      \<and> (v = MODE_2D \<longrightarrow>
           s2_spots (w_scene2d (set_mode v s)) = w_spots s
           \<and> s2_image (w_scene2d (set_mode v s)) = s2_image (w_scene2d s)
           \<and> w_currentScene (set_mode v s) = Some Scene2D_ref)
      \<and> (v = MODE_3D \<longrightarrow>
           s3_spots (w_scene3d (set_mode v s)) = w_spots s
           \<and> s3_geometry (w_scene3d (set_mode v s)) = s3_geometry (w_scene3d s)
           \<and> w_currentScene (set_mode v s) = Some Scene3D_ref)
      \<and> scenes_clear (set_mode v s)
      \<and> (scenes_clear s \<and> w_mode s \<noteq> MODE_2D \<and> v \<noteq> MODE_2D \<longrightarrow>
           w_scene2d (set_mode v s) = w_scene2d s)
      \<and> (scenes_clear s \<and> w_mode s \<noteq> MODE_3D \<and> v \<noteq> MODE_3D \<longrightarrow>
           w_scene3d (set_mode v s) = w_scene3d s)
      \<and> w_spots (set_mode v s) = w_spots s \<and> w_measures (set_mode v s) = w_measures s
      \<and> w_activeMeasure (set_mode v s) = w_activeMeasure s
      \<and> w_colorMap (set_mode v s) = w_colorMap s \<and> w_scale (set_mode v s) = w_scale s
      \<and> w_hotspotQuantile (set_mode v s) = w_hotspotQuantile s
      \<and> w_autoMinMax (set_mode v s) = w_autoMinMax s
      \<and> w_minValue (set_mode v s) = w_minValue s \<and> w_maxValue (set_mode v s) = w_maxValue s
      \<and> w_errors (set_mode v s) = w_errors s \<and> w_status (set_mode v s) = w_status s
      \<and> w_loadedSettings (set_mode v s) = w_loadedSettings s)"
proof (cases "v = w_mode s")
  case True
  then show ?thesis
    by (simp add: set_mode_same)
next
  case False
  obtain ns where ns: "w_events (set_mode v s) = w_events s @ ns @ [MODE_CHANGE]"
      "set ns \<subseteq> {NO_TASKS}"
    using set_mode_events [OF False] by blast
  have "MODE_CHANGE \<notin> set ns"
    using ns(2) by auto
  then have ev: "last (w_events (set_mode v s)) = MODE_CHANGE
      \<and> count_list (w_events (set_mode v s)) MODE_CHANGE = Suc (count_list (w_events s) MODE_CHANGE)
      \<and> take (length (w_events s)) (w_events (set_mode v s)) = w_events s"
    by (simp add: ns(1))
  have rest: "set_mode (w_mode s) s = s"
    by (rule set_mode_same)
  show ?thesis
    using False ev rest set_mode_state [OF False] set_mode_frame [of v s]
      set_mode_runner [OF False] set_mode_scenes [OF False]
    by blast
qed

lemma Workspace_new_clear: "scenes_clear (Workspace_new c)"
  by (simp add: scenes_clear_def Workspace_new_def)

theorem set_mode_transition_witness:
  "MODE_3D \<noteq> w_mode image_loading_workspace
   \<and> w_mode (set_mode MODE_3D image_loading_workspace) = MODE_3D
   \<and> s2_image (w_scene2d (set_mode MODE_3D image_loading_workspace)) = None
   \<and> s2_spots (w_scene2d (set_mode MODE_3D image_loading_workspace)) = None
   \<and> s3_spots (w_scene3d (set_mode MODE_3D image_loading_workspace)) = w_spots loaded_workspace
   \<and> w_currentScene (set_mode MODE_3D image_loading_workspace) = Some Scene3D_ref
   \<and> w_tasks (set_mode MODE_3D image_loading_workspace) =
       [(''load-settings'', \<lparr> task_args = File_arg (Some ''s.json''), task_posted = False \<rparr>)]
   \<and> w_settingsToLoad (set_mode MODE_3D image_loading_workspace) = None
   \<and> w_terminated (set_mode MODE_3D image_loading_workspace) = [''load-measures'', ''load-image'']
   \<and> last (w_events (set_mode MODE_3D image_loading_workspace)) = MODE_CHANGE
   \<and> last (w_observed (set_mode MODE_3D image_loading_workspace)) =
       WorkspaceCore.truncate (set_mode MODE_3D image_loading_workspace)
   \<and> scenes_clear (Workspace_new 0)
   \<and> w_scene3d (set_mode MODE_2D (Workspace_new 0)) = w_scene3d (Workspace_new 0)
   \<and> set_mode (w_mode (Workspace_new 0)) (Workspace_new 0) = Workspace_new 0"
proof -
  have a: "MODE_3D \<noteq> w_mode image_loading_workspace"
    by simp
  note t = set_mode_transition [of image_loading_workspace MODE_3D]
  have r: "remaining_tasks MODE_3D (w_tasks image_loading_workspace) = []"
    by (simp add: remaining_3D)
  have k: "filter (\<lambda>k. k \<in> fst ` set (w_tasks image_loading_workspace)) (cancelled_keys MODE_3D)
      = [''load-image'']"
    by (simp add: cancelled_keys_def)
  have b: "w_mode (set_mode MODE_3D image_loading_workspace) = MODE_3D"
    "last (w_events (set_mode MODE_3D image_loading_workspace)) = MODE_CHANGE"
    "last (w_observed (set_mode MODE_3D image_loading_workspace)) =
       WorkspaceCore.truncate (set_mode MODE_3D image_loading_workspace)"
    "s2_image (w_scene2d (set_mode MODE_3D image_loading_workspace)) = None"
    "s2_spots (w_scene2d (set_mode MODE_3D image_loading_workspace)) = None"
    using t a by simp_all
  have c: "s3_spots (w_scene3d (set_mode MODE_3D image_loading_workspace)) = w_spots loaded_workspace"
    "w_currentScene (set_mode MODE_3D image_loading_workspace) = Some Scene3D_ref"
    using t a by simp_all
  have d: "w_tasks (set_mode MODE_3D image_loading_workspace) =
       [(''load-settings'', \<lparr> task_args = File_arg (Some ''s.json''), task_posted = False \<rparr>)]"
    "w_settingsToLoad (set_mode MODE_3D image_loading_workspace) = None"
    "w_terminated (set_mode MODE_3D image_loading_workspace) = [''load-measures'', ''load-image'']"
    using t a r k by simp_all
  have n: "MODE_2D \<noteq> w_mode (Workspace_new 0)"
    by simp
  have e: "w_scene3d (set_mode MODE_2D (Workspace_new 0)) = w_scene3d (Workspace_new 0)"
  proof -
    have "w_mode (Workspace_new 0) \<noteq> MODE_3D" "MODE_2D \<noteq> MODE_3D"
      by simp_all
    then show ?thesis
      using set_mode_transition [of "Workspace_new 0" MODE_2D] n Workspace_new_clear [of 0]
      by blast
  qed
  have f: "set_mode (w_mode (Workspace_new 0)) (Workspace_new 0) = Workspace_new 0"
    using set_mode_transition [of "Workspace_new 0" MODE_2D] by blast
  show ?thesis
    using a b c d e f Workspace_new_clear [of 0] by blast
qed

text \<open>
  Leaving \<open>MODE_2D\<close> while the image load is the only running task and a settings file is
  pending: besides the state of the 2D mode, the setter clears the pending slot and
  starts the settings load.
\<close>

theorem set_mode_transition_counterexample:
  "w_mode image_loading_workspace = MODE_2D
   \<and> w_settingsToLoad image_loading_workspace = Some (Some ''s.json'')
   \<and> w_tasks image_loading_workspace =
       [(''load-image'', \<lparr> task_args = File_arg (Some ''i.png''), task_posted = True \<rparr>)]
   \<and> w_settingsToLoad (set_mode MODE_3D image_loading_workspace) = None
   \<and> w_tasks (set_mode MODE_3D image_loading_workspace) =
       [(''load-settings'', \<lparr> task_args = File_arg (Some ''s.json''), task_posted = False \<rparr>)]
   \<and> w_events (set_mode MODE_3D image_loading_workspace) =
       w_events image_loading_workspace @ [NO_TASKS, MODE_CHANGE]"
proof -
  have m: "w_mode image_loading_workspace \<noteq> MODE_3D"
    by simp
  show ?thesis
    by (simp add: set_mode_3D [OF m] notify_MODE_CHANGE Let_def cancelTask_tasks
          cancelTask_settingsToLoad cancelTask_events)
qed

section \<open>The colormap setter\<close>

lemma set_colorMapId_absent: "\<not> js_in v Maps \<Longrightarrow> set_colorMapId Maps v s = s"
  by (simp add: set_colorMapId_def)

lemma notify_MAPPING_CHANGE:
  "notify MAPPING_CHANGE s =
     s\<lparr> w_events := w_events s @ [MAPPING_CHANGE],
        w_observed := w_observed s @ [WorkspaceCore.truncate s] \<rparr>"
  by (simp add: notify_eq)

text \<open>
  Claim C10, at the input where the code departs from it. The registry holds the
  colormap \<open>VIRIDIS\<close> only, and \<open>toString\<close> is no identifier of a colormap; but
  \<open>'toString' in ColorMap.Maps\<close> holds, through \<open>Object.prototype\<close>, so the setter
  replaces the colormap of the workspace and of both scenes by the inherited member and
  publishes \<open>mapping-change\<close>.
\<close>

theorem set_colorMapId_inherited_name:
  "[''VIRIDIS'' \<mapsto> ColorMap 0] ''toString'' = None
   \<and> w_colorMap (Workspace_new 0) = ColorMap 0
   \<and> w_colorMap (set_colorMapId [''VIRIDIS'' \<mapsto> ColorMap 0] ''toString'' (Workspace_new 0)) =
       Object_member ''toString''
   \<and> s2_colorMap (w_scene2d (set_colorMapId [''VIRIDIS'' \<mapsto> ColorMap 0] ''toString'' (Workspace_new 0))) =
       Object_member ''toString''
   \<and> s3_colorMap (w_scene3d (set_colorMapId [''VIRIDIS'' \<mapsto> ColorMap 0] ''toString'' (Workspace_new 0))) =
       Object_member ''toString''
   \<and> w_events (set_colorMapId [''VIRIDIS'' \<mapsto> ColorMap 0] ''toString'' (Workspace_new 0)) =
       [MAPPING_CHANGE]
   \<and> set_colorMapId [''VIRIDIS'' \<mapsto> ColorMap 0] ''RAINBOW'' (Workspace_new 0) = Workspace_new 0"
  by (simp add: set_colorMapId_def js_in_def Object_prototype_def Maps_at_def notify_MAPPING_CHANGE
        Workspace_new_def)

section \<open>Per-spot visibility\<close>

lemma clamp_visibility_num:
  "clamp_visibility (JNum (Num r)) = JNum (Num (max 0 (min 1 r)))"
  by (simp add: clamp_visibility_def jsv_lt_def)

lemma clamp_visibility_low: "jsv_lt v (JNum (Num 0)) \<Longrightarrow> clamp_visibility v = JNum (Num 0)"
  by (simp add: clamp_visibility_def)

lemma js_lt_one_not_negative: "js_lt (Num 1) n \<Longrightarrow> \<not> js_lt n (Num 0)"
  by (cases n) simp_all

lemma clamp_visibility_high: "jsv_lt (JNum (Num 1)) v \<Longrightarrow> clamp_visibility v = JNum (Num 1)"
  using js_lt_one_not_negative [of "to_number v"] by (simp add: clamp_visibility_def jsv_lt_def)

lemma spots_loop_no_scene:
  "spots_loop setter vals i spots None =
     (None, map (\<lambda>sp. if js_in (spot_name sp) vals then setter vals sp else sp) spots, None)"
  by (induction spots arbitrary: i) simp_all

lemma spots_loop_unmatched:
  "\<forall>sp \<in> set spots. \<not> js_in (spot_name sp) vals \<Longrightarrow>
   spots_loop setter vals i spots sc = (None, spots, sc)"
  by (induction spots arbitrary: i) simp_all

text \<open>
  When the current scene holds no spot at the index of a spot the mapping names, the
  write ends in a TypeError after the spot of the workspace has been written, and the
  scene is not refreshed.
\<close>

lemma set_spotVisibility_TypeError:
  "set_spotVisibility [''b'' \<mapsto> JNum (Num 7)]
        ((Workspace_new 0)\<lparr> w_spots := Some [loaded_spot ''a'', loaded_spot ''b''],
            w_currentScene := Some Scene2D_ref,
            w_scene2d := (w_scene2d (Workspace_new 0))\<lparr> s2_spots := Some [loaded_spot ''a''] \<rparr> \<rparr>) =
       (Some TypeError,
        (Workspace_new 0)\<lparr> w_spots :=
            Some [loaded_spot ''a'', (loaded_spot ''b'')\<lparr> spot_visibility := JNum (Num 1) \<rparr>],
            w_currentScene := Some Scene2D_ref,
            w_scene2d := (w_scene2d (Workspace_new 0))\<lparr> s2_spots := Some [loaded_spot ''a''] \<rparr> \<rparr>)"
  by (simp add: set_spotVisibility_def createSpotsProperty_set_def current_scene_spots_def
        set_current_scene_spots_def refreshSpots_def visibility_setter_def lookup_value_def
        clamp_visibility_def jsv_lt_def js_in_def Object_prototype_def loaded_spot_def
        Workspace_new_def)

text \<open>
  Claim C8, at the input where the code departs from it. The mapping is empty, so no
  name is present in it; but \<open>'constructor' in values\<close> holds, through
  \<open>Object.prototype\<close>, so the spot of that name is written, and what is stored is the
  inherited member, which is neither below 0 nor above 1. The spot named \<open>b\<close> is left
  as it was.
\<close>

theorem set_spotVisibility_inherited_name:
  "Map.empty ''constructor'' = (None :: jsval option)
   \<and> set_spotVisibility Map.empty
        ((Workspace_new 0)\<lparr> w_spots := Some [loaded_spot ''constructor'', loaded_spot ''b''] \<rparr>) =
       (None, (Workspace_new 0)\<lparr> w_spots :=
          Some [(loaded_spot ''constructor'')\<lparr> spot_visibility := JObject ''constructor'' \<rparr>,
                loaded_spot ''b''] \<rparr>)"
  by (simp add: set_spotVisibility_def createSpotsProperty_set_def current_scene_spots_def
        set_current_scene_spots_def refreshSpots_def visibility_setter_def lookup_value_def
        clamp_visibility_def jsv_lt_def js_in_def Object_prototype_def loaded_spot_def
        Workspace_new_def)

section \<open>Rounding to doubles\<close>

text \<open>
  Rounding keeps the sign, stays within the integers that bound its argument, and leaves
  the integers below \<open>2 ^ 53\<close> in absolute value and the dyadic fractions of that
  precision as they are. Two doubles that differ, differ by the least subnormal at
  least, so the sign of their rounded difference is the sign of their difference.
\<close>

lemma below_overflow: "\<bar>x\<bar> < 2 ^ 53 \<Longrightarrow> \<bar>x\<bar> < double_overflow"
proof -
  assume a: "\<bar>x\<bar> < 2 ^ 53"
  have "(2::real) ^ 53 \<le> 2 ^ 1024"
    by (rule power_increasing) simp_all
  with a show ?thesis
    unfolding double_overflow_def by (rule less_le_trans)
qed

lemma round_half_even_of_int [simp]: "round_half_even (of_int k) = k"
  by (simp add: round_half_even_def)

lemma round_half_even_le: "y \<le> of_int k \<Longrightarrow> round_half_even y \<le> k"
proof -
  assume a: "y \<le> of_int k"
  show ?thesis
  proof (cases "y = of_int k")
    case True
    then show ?thesis by simp
  next
    case False
    then have "y < of_int k"
      using a by simp
    then have "\<lfloor>y\<rfloor> < k"
      by (simp add: floor_less_iff)
    then have "\<lfloor>y\<rfloor> + 1 \<le> k"
      by simp
    then show ?thesis
      by (simp add: round_half_even_def Let_def)
  qed
qed

lemma round_half_even_ge: "of_int k \<le> y \<Longrightarrow> k \<le> round_half_even y"
proof -
  assume "of_int k \<le> y"
  then have "k \<le> \<lfloor>y\<rfloor>"
    by (simp add: le_floor_iff)
  then show ?thesis
    by (simp add: round_half_even_def Let_def)
qed

lemma double_exponent_le_0: "0 < x \<Longrightarrow> x < 2 ^ 53 \<Longrightarrow> double_exponent x \<le> 0"
proof -
  assume a: "0 < x" "x < 2 ^ 53"
  have "log 2 x < 53"
    using a by (simp add: log_less_iff)
  then have "\<lfloor>log 2 x\<rfloor> \<le> 52"
    by (simp add: floor_le_iff)
  then show ?thesis
    using a by (simp add: double_exponent_def)
qed

lemma powr_neg_int: "e \<le> 0 \<Longrightarrow> (2::real) powr of_int e = 1 / 2 ^ nat (- e)"
proof -
  assume a: "e \<le> 0"
  define n where "n = nat (- e)"
  have e: "e = - int n"
    using a by (simp add: n_def)
  have "(2::real) powr of_int (- int n) = 1 / 2 ^ n"
    by (simp add: powr_minus powr_realpow divide_inverse)
  then show ?thesis
    by (simp only: e n_def [symmetric]) (simp add: n_def)
qed

lemma to_double_between:
  assumes "real j \<le> x" "x \<le> real k" "k < 2 ^ 53"
  shows "\<exists>y. to_double x = Num y \<and> real j \<le> y \<and> y \<le> real k"
proof (cases "x = 0")
  case True
  then show ?thesis
    using assms(1) by (simp add: to_double_def)
next
  case False
  have "0 \<le> real j"
    by simp
  then have "0 \<le> x"
    using assms(1) by (rule order_trans)
  then have pos: "0 < x"
    using False by simp
  have kk: "real k < 2 ^ 53"
    using assms(3) by (metis of_nat_less_iff of_nat_numeral of_nat_power)
  then have lt: "x < 2 ^ 53"
    using assms(2) by simp
  define e where "e = double_exponent x"
  define n where "n = nat (- e)"
  have e0: "e \<le> 0"
    unfolding e_def using pos lt by (rule double_exponent_le_0)
  have p: "(2::real) powr of_int e = 1 / 2 ^ n"
    unfolding n_def using e0 by (rule powr_neg_int)
  define r where "r = round_half_even (x / 2 powr of_int e)"
  have "x / 2 powr of_int e \<le> of_int (int k * 2 ^ n)"
    using assms(2) by (simp add: p mult_right_mono)
  then have r1: "r \<le> int k * 2 ^ n"
    unfolding r_def by (rule round_half_even_le)
  have "of_int (int j * 2 ^ n) \<le> x / 2 powr of_int e"
    using assms(1) by (simp add: p mult_right_mono)
  then have r0: "int j * 2 ^ n \<le> r"
    unfolding r_def by (rule round_half_even_ge)
  define y :: real where "y = of_int r * 2 powr of_int e"
  have "(of_int (int j * 2 ^ n) :: real) \<le> of_int r"
    using r0 by (simp only: of_int_le_iff)
  then have "real j * 2 ^ n \<le> of_int r"
    by simp
  then have "real j \<le> of_int r / 2 ^ n"
    by (simp add: le_divide_eq)
  then have y0: "real j \<le> y"
    by (simp add: y_def p)
  have "of_int r \<le> (of_int (int k * 2 ^ n) :: real)"
    using r1 by (simp only: of_int_le_iff)
  then have "of_int r \<le> real k * 2 ^ n"
    by simp
  then have "of_int r / 2 ^ n \<le> real k"
    by (simp add: divide_le_eq)
  then have y1: "y \<le> real k"
    by (simp add: y_def p)
  have "0 \<le> y"
    using y0 by simp
  then have "\<bar>y\<bar> < 2 ^ 53"
    using y1 kk by simp
  then have "\<bar>y\<bar> < double_overflow"
    by (rule below_overflow)
  then have "to_double x = Num y"
    using False by (simp add: to_double_def Let_def e_def [symmetric] r_def [symmetric] y_def [symmetric])
  then show ?thesis
    using y0 y1 by blast
qed

lemma to_double_exact:
  assumes "x = of_int j * 2 powr of_int d" "double_exponent x \<le> d" "\<bar>x\<bar> < double_overflow"
  shows "to_double x = Num x"
proof (cases "x = 0")
  case True
  then show ?thesis
    by (simp add: to_double_def)
next
  case False
  define e where "e = double_exponent x"
  have "(2::real) powr of_int d = 2 powr of_int (d - e) * 2 powr of_int e"
    by (simp add: powr_add [symmetric])
  also have "(2::real) powr of_int (d - e) = 2 ^ nat (d - e)"
    using assms(2) by (simp add: e_def powr_realpow [symmetric])
  finally have q: "x / 2 powr of_int e = of_int (j * 2 ^ nat (d - e))"
    by (simp add: assms(1))
  have "of_int (round_half_even (x / 2 powr of_int e)) * 2 powr of_int e = x"
    unfolding q round_half_even_of_int using q by (simp add: field_simps)
  then show ?thesis
    using False assms(3) by (simp add: to_double_def Let_def e_def [symmetric])
qed

lemma to_double_int: "\<bar>j\<bar> < 2 ^ 53 \<Longrightarrow> to_double (of_int j) = Num (of_int j)"
proof (cases "j = 0")
  case True
  then show ?thesis
    by (simp add: to_double_def)
next
  case False
  assume a: "\<bar>j\<bar> < 2 ^ 53"
  have b: "\<bar>of_int j :: real\<bar> < 2 ^ 53"
    using a by (metis of_int_abs of_int_less_iff of_int_numeral of_int_power)
  have "0 < \<bar>of_int j :: real\<bar>"
    using False by simp
  then have "double_exponent \<bar>of_int j\<bar> \<le> 0"
    using b by (rule double_exponent_le_0)
  then have e: "double_exponent (of_int j) \<le> 0"
    by (simp add: double_exponent_def)
  have "(of_int j :: real) = of_int j * 2 powr of_int 0"
    by simp
  then show ?thesis
    using e below_overflow [OF b] by (rule to_double_exact)
qed

lemma to_double_nat: "n < 2 ^ 53 \<Longrightarrow> to_double (real n) = Num (real n)"
  using to_double_int [of "int n"] by simp

lemma to_double_pred: "0 < n \<Longrightarrow> n \<le> 2 ^ 53 \<Longrightarrow> to_double (real n - 1) = Num (real n - 1)"
  using to_double_nat [of "n - 1"] by (simp add: of_nat_diff)

lemma floor_log2:
  assumes "2 powr of_int k \<le> x" "x < 2 powr of_int (k + 1)"
  shows "\<lfloor>log 2 x\<rfloor> = k"
proof -
  have "0 < (2::real) powr of_int k"
    by simp
  then have "0 < x"
    using assms(1) by (rule less_le_trans)
  then show ?thesis
    using assms by (simp add: floor_log_eq_powr_iff)
qed

lemma double_exponent_le:
  assumes "0 < x" "x < 2 powr of_int (d + 53)" "- 1074 \<le> d"
  shows "double_exponent x \<le> d"
proof -
  have "log 2 x < of_int (d + 53)"
    using assms(1,2) by (simp add: log_less_iff)
  then have "\<lfloor>log 2 x\<rfloor> < d + 53"
    by (simp only: floor_less_iff)
  then show ?thesis
    using assms(1,3) by (simp add: double_exponent_def)
qed

lemma double_exponent_abs: "double_exponent \<bar>x\<bar> = double_exponent x"
  by (simp add: double_exponent_def)

lemma to_double_dyadic:
  assumes "\<bar>j\<bar> < 2 ^ 53" "- 1074 \<le> d" "d \<le> 0"
  shows "to_double (of_int j * 2 powr of_int d) = Num (of_int j * 2 powr of_int d)"
proof (cases "j = 0")
  case True
  then show ?thesis
    by (simp add: to_double_def)
next
  case False
  define x :: real where "x = of_int j * 2 powr of_int d"
  have j: "\<bar>of_int j :: real\<bar> < 2 ^ 53"
    using assms(1) by (metis of_int_abs of_int_less_iff of_int_numeral of_int_power)
  have ax: "\<bar>x\<bar> = \<bar>of_int j\<bar> * 2 powr of_int d"
    by (simp add: x_def abs_mult)
  have pos: "0 < \<bar>x\<bar>"
    using False by (simp add: x_def)
  have "\<bar>x\<bar> < 2 ^ 53 * 2 powr of_int d"
    unfolding ax using j by (simp add: mult_strict_right_mono)
  also have "\<dots> = 2 powr of_int (d + 53)"
    by (simp add: powr_add powr_realpow [symmetric])
  finally have "double_exponent \<bar>x\<bar> \<le> d"
    using pos assms(2) by (simp add: double_exponent_le)
  then have e: "double_exponent x \<le> d"
    by (simp only: double_exponent_abs)
  have "(2::real) powr of_int d \<le> 2 powr 0"
    using assms(3) by (intro powr_mono) simp_all
  then have "(2::real) powr of_int d \<le> 1"
    by simp
  then have "\<bar>x\<bar> \<le> \<bar>of_int j\<bar>"
    unfolding ax by (simp add: mult_left_le)
  then have "\<bar>x\<bar> < 2 ^ 53"
    using j by simp
  then have o: "\<bar>x\<bar> < double_overflow"
    by (rule below_overflow)
  have "to_double x = Num x"
    using x_def e o by (rule to_double_exact)
  then show ?thesis
    by (simp add: x_def)
qed

lemma to_double_half: "to_double (1 / 2) = Num (1 / 2)"
  using to_double_dyadic [of 1 "- 1"] by (simp add: powr_neg_one)

lemma to_double_nonpos: "x \<le> 0 \<Longrightarrow> \<not> js_gt (to_double x) (Num 0)"
proof -
  assume a: "x \<le> 0"
  define e where "e = double_exponent x"
  define r where "r = round_half_even (x / 2 powr of_int e)"
  have "x / 2 powr of_int e \<le> of_int 0"
    using a by (simp add: divide_le_0_iff)
  then have "r \<le> 0"
    unfolding r_def by (rule round_half_even_le)
  then have "of_int r * (2::real) powr of_int e \<le> 0"
    by (simp add: mult_le_0_iff)
  then show ?thesis
    using a by (simp add: to_double_def Let_def e_def [symmetric] r_def [symmetric] js_gt_def)
qed

lemma to_double_pos:
  assumes "2 powr (- 1074) \<le> x"
  shows "js_gt (to_double x) (Num 0)"
proof -
  have "0 < (2::real) powr (- 1074)"
    by simp
  then have pos: "0 < x"
    using assms by (rule less_le_trans)
  define e where "e = double_exponent x"
  define r where "r = round_half_even (x / 2 powr of_int e)"
  have l1: "- 1074 \<le> log 2 x"
    using assms pos by (simp add: le_log_iff)
  have l2: "of_int (\<lfloor>log 2 x\<rfloor> - 52) \<le> log 2 x"
    by (simp add: algebra_simps) linarith
  have "of_int e \<le> log 2 x"
    using l1 l2 pos by (simp add: e_def double_exponent_def max_def)
  then have "2 powr of_int e \<le> x"
    using pos by (simp add: le_log_iff)
  then have "of_int 1 \<le> x / 2 powr of_int e"
    by (simp add: le_divide_eq)
  then have "1 \<le> r"
    unfolding r_def by (rule round_half_even_ge)
  then have "0 < of_int r * (2::real) powr of_int e"
    by (simp add: zero_less_mult_iff)
  then show ?thesis
    using pos by (simp add: to_double_def Let_def e_def [symmetric] r_def [symmetric] js_gt_def)
qed

lemma double_grid:
  assumes "to_double x = Num x"
  shows "\<exists>k::int. x = of_int k * 2 powr (- 1074)"
proof (cases "x = 0")
  case True
  then have "x = of_int 0 * 2 powr (- 1074)"
    by simp
  then show ?thesis
    by blast
next
  case False
  define e where "e = double_exponent x"
  define r where "r = round_half_even (x / 2 powr of_int e)"
  have e: "- 1074 \<le> e"
    by (simp add: e_def double_exponent_def)
  have "to_double x = Num (of_int r * 2 powr of_int e)"
    using assms False
    by (simp add: to_double_def Let_def e_def [symmetric] r_def [symmetric] split: if_splits)
  then have x: "x = of_int r * 2 powr of_int e"
    using assms by simp
  have "(2::real) powr of_int e = 2 powr of_int (e + 1074) * 2 powr (- 1074)"
    by (simp add: powr_add [symmetric])
  also have "(2::real) powr of_int (e + 1074) = 2 ^ nat (e + 1074)"
    using e by (simp add: powr_realpow [symmetric])
  finally have "x = of_int (r * 2 ^ nat (e + 1074)) * 2 powr (- 1074)"
    using x by simp
  then show ?thesis
    by blast
qed

lemma double_diff:
  assumes "to_double a = Num a" "to_double b = Num b" "b < a"
  shows "2 powr (- 1074) \<le> a - b"
proof -
  obtain ka :: int where ka: "a = of_int ka * 2 powr (- 1074)"
    using double_grid [OF assms(1)] by blast
  obtain kb :: int where kb: "b = of_int kb * 2 powr (- 1074)"
    using double_grid [OF assms(2)] by blast
  have "kb < ka"
    using assms(3) unfolding ka kb by (simp add: mult_less_cancel_right)
  then have "1 \<le> ka - kb"
    by simp
  then have "(1::real) \<le> of_int (ka - kb)"
    by (simp only: of_int_1_le_iff)
  then have "1 * 2 powr (- 1074) \<le> of_int (ka - kb) * (2::real) powr (- 1074)"
    by (rule mult_right_mono) simp
  then show ?thesis
    unfolding ka kb by (simp add: algebra_simps)
qed

lemma compare_doubles:
  assumes "to_double a = Num a" "to_double b = Num b"
  shows "js_gt (to_double (a - b)) (Num 0) \<longleftrightarrow> b < a"
proof (cases "b < a")
  case True
  then show ?thesis
    using to_double_pos [OF double_diff [OF assms True]] by simp
next
  case False
  then have "a - b \<le> 0"
    by simp
  then show ?thesis
    using to_double_nonpos [of "a - b"] False by simp
qed

lemma to_double_5_02: "to_double (5 * (3602879701896397 / 2 ^ 54)) = Num 1"
proof -
  define x :: real where "x = 5 * (3602879701896397 / 2 ^ 54)"
  have b: "2 powr of_int 0 \<le> x" "x < 2 powr of_int (0 + 1)"
    by (simp_all add: x_def)
  have "\<lfloor>log 2 x\<rfloor> = 0"
    using b by (rule floor_log2)
  moreover have "0 < x"
    by (simp add: x_def)
  ultimately have e: "double_exponent x = - 52"
    by (simp add: double_exponent_def)
  have p: "(2::real) powr (- 52) = 1 / 2 ^ 52"
    using powr_neg_int [of "- 52"] by simp
  have q: "x / 2 powr of_int (- 52) = 18014398509481985 / 4"
    by (simp add: p x_def)
  have m: "round_half_even (18014398509481985 / 4) = 4503599627370496"
    by (simp add: round_half_even_def Let_def)
  have y: "of_int 4503599627370496 * (2::real) powr of_int (- 52) = 1"
    by (simp add: p)
  have o: "\<not> double_overflow \<le> \<bar>1\<bar>"
    using below_overflow [of 1] by simp
  have "x \<noteq> 0"
    by (simp add: x_def)
  then have "to_double x = Num 1"
    unfolding to_double_def Let_def e q m y using o by simp
  then show ?thesis
    by (simp only: x_def)
qed

section \<open>The intensity recompute\<close>

lemma jsv_ge_undefined [simp]: "\<not> jsv_ge JUndefined x"
  by (simp add: jsv_ge_def)

lemma intensity_of_undefined [simp]: "intensity_of JUndefined mn mx = NaN"
  by (simp add: intensity_of_def)

lemma intensities_loop_length [simp]: "length (intensities_loop s k spots) = length spots"
  by (induction spots arbitrary: k) simp_all

lemma intensities_loop_nth:
  "i < length spots \<Longrightarrow>
   intensities_loop s k spots ! i =
     (spots ! i)\<lparr> spot_intensity :=
        JNum (intensity_of (scaledValue s (k + i)) (w_minValue s) (w_maxValue s)) \<rparr>"
  by (induction spots arbitrary: k i) (simp_all add: nth_Cons split: nat.splits)

lemma intensities_loop_const:
  "(\<And>i. intensity_of (scaledValue s i) (w_minValue s) (w_maxValue s) = c) \<Longrightarrow>
   intensities_loop s k spots = map (\<lambda>sp. sp\<lparr> spot_intensity := JNum c \<rparr>) spots"
  by (induction spots arbitrary: k) simp_all

lemma notify_other:
  "e \<noteq> NO_TASKS \<Longrightarrow>
   notify e s = s\<lparr> w_events := w_events s @ [e],
                    w_observed := w_observed s @ [WorkspaceCore.truncate s] \<rparr>"
  by (simp add: notify_eq)

lemma updateMinMaxValues_frame:
  "w_spots (snd (updateMinMaxValues s)) = w_spots s
   \<and> w_activeMeasure (snd (updateMinMaxValues s)) = w_activeMeasure s
   \<and> w_scale (snd (updateMinMaxValues s)) = w_scale s
   \<and> w_measures (snd (updateMinMaxValues s)) = w_measures s"
  by (simp add: updateMinMaxValues_def Let_def notify_other)

lemma updateIntensities_undefined:
  "w_activeMeasure s = Undefined \<Longrightarrow>
   w_spots (updateIntensities s) = map_option (map (\<lambda>sp. sp\<lparr> spot_intensity := JNum NaN \<rparr>)) (w_spots s)
   \<and> w_activeMeasure (updateIntensities s) = Undefined"
  by (cases "w_spots s")
     (simp_all add: updateIntensities_def Let_def scaledValue_def intensities_loop_const [where c = NaN])

lemma updateIntensities_spots:
  "w_spots s = Some spots \<Longrightarrow>
   w_spots (updateIntensities s) = Some (intensities_loop s 0 spots)"
  by (simp add: updateIntensities_def Let_def)

lemma updateIntensities_frame [simp]:
  "w_minValue (updateIntensities s) = w_minValue s"
  "w_maxValue (updateIntensities s) = w_maxValue s"
  "w_activeMeasure (updateIntensities s) = w_activeMeasure s"
  "w_events (updateIntensities s) = w_events s"
  "w_scale (updateIntensities s) = w_scale s"
  "w_autoMinMax (updateIntensities s) = w_autoMinMax s"
  by (simp_all add: updateIntensities_def Let_def split: option.splits)

lemma insert_sorted_Num:
  assumes "to_double x = Num x" "\<forall>y \<in> set ys. to_double y = Num y"
  shows "insert_sorted (Num x) (map Num ys) = map Num (insort x ys)"
  using assms(2)
  by (induction ys) (simp_all add: compare_numbers_def compare_doubles [OF assms(1)] not_less)

lemma finite_Num: "is_finite x \<Longrightarrow> x = Num (real_of_num x)"
  by (cases x) simp_all

lemma finite_double:
  "is_finite x \<Longrightarrow> is_double x \<Longrightarrow> to_double (real_of_num x) = Num (real_of_num x)"
  by (cases x) simp_all

lemma array_sort_finite:
  "\<forall>x \<in> set xs. is_finite x \<and> is_double x \<Longrightarrow>
   array_sort xs = map Num (sort (map real_of_num xs))"
proof (induction xs)
  case Nil
  then show ?case by (simp add: array_sort_def)
next
  case (Cons x xs)
  then have ih: "array_sort xs = map Num (sort (map real_of_num xs))"
    and x: "is_finite x" "is_double x"
    by simp_all
  have d: "\<forall>y \<in> set (sort (map real_of_num xs)). to_double y = Num y"
    using Cons.prems by (auto simp: finite_double)
  show ?case
    using insert_sorted_Num [OF finite_double [OF x] d] finite_Num [OF x(1)] ih
    by (simp add: array_sort_def)
qed

lemma Scale_filter_finite: "Scale_filter sc x \<Longrightarrow> is_finite x"
  by (cases sc; cases x) (simp_all add: js_gt_def)

lemma array_sort_survivors:
  assumes "list_all is_double raw"
  shows "array_sort (filter (Scale_filter sc) raw) = map Num (spec_survivors sc raw)"
proof -
  have "\<forall>x \<in> set (filter (Scale_filter sc) raw). is_finite x \<and> is_double x"
    using assms by (auto simp: list_all_iff intro: Scale_filter_finite)
  then show ?thesis
    unfolding spec_survivors_def by (rule array_sort_finite)
qed

lemma js_loose_eq_JNum:
  assumes "js_loose_eq x (JNum b)"
  shows "x = JNum b"
proof (cases x)
  case (JNum a)
  then show ?thesis
    using assms by (cases a; cases b) simp_all
next
  case JUndefined
  then show ?thesis
    using assms by (cases b) simp_all
next
  case JNull
  then show ?thesis
    using assms by (cases b) simp_all
next
  case (JObject n)
  then show ?thesis
    using assms by (cases b) simp_all
qed

lemma Scale_function_JNum: "\<exists>c. Scale_function sc (JNum n) = JNum c"
  by (cases sc) simp_all

lemma quantile_rank:
  assumes "0 \<le> q" "q \<le> 1" "0 < n" "n \<le> 2 ^ 53"
  shows "\<exists>y. js_mul (js_sub (Num (real n)) (Num 1)) (Num q) = Num y
           \<and> to_double ((real n - 1) * q) = Num y \<and> 0 \<le> y \<and> nat \<lceil>y\<rceil> < n
           \<and> nat \<lceil>(real n - 1) * q\<rceil> - 1 \<le> nat \<lceil>y\<rceil>
           \<and> nat \<lceil>y\<rceil> \<le> nat \<lceil>(real n - 1) * q\<rceil>"
proof -
  define x where "x = (real n - 1) * q"
  define c where "c = nat \<lceil>x\<rceil>"
  have s: "js_sub (Num (real n)) (Num 1) = Num (real n - 1)"
    using to_double_pred [OF assms(3,4)] by simp
  have x0: "0 \<le> x"
    using assms(1,3) by (simp add: x_def)
  have "x \<le> real n - 1"
    using assms(1,2,3) by (simp add: x_def mult_left_le)
  then have "x \<le> of_int (int n - 1)"
    by simp
  then have "\<lceil>x\<rceil> \<le> int n - 1"
    by (simp only: ceiling_le_iff)
  then have cn: "c < n"
    using assms(3) by (simp add: c_def)
  then have c53: "c < 2 ^ 53"
    using assms(4) by simp
  have "0 \<le> \<lceil>x\<rceil>"
    using x0 by (simp add: le_ceiling_iff)
  then have rc: "real c = of_int \<lceil>x\<rceil>"
    by (simp add: c_def)
  have up: "x \<le> real c"
    unfolding rc by (rule le_of_int_ceiling)
  have lo: "real (c - 1) \<le> x"
  proof (cases "c = 0")
    case True
    then show ?thesis
      using x0 by simp
  next
    case False
    then have "real (c - 1) = of_int \<lceil>x\<rceil> - 1"
      using rc by (simp add: of_nat_diff)
    then show ?thesis
      using of_int_ceiling_diff_one_le [of x] by simp
  qed
  obtain y where y: "to_double x = Num y" "real (c - 1) \<le> y" "y \<le> real c"
    using to_double_between [OF lo up c53] by blast
  have y0: "0 \<le> y"
    using y(2) by simp
  have "\<lceil>y\<rceil> \<le> int c"
    using y(3) by (simp add: ceiling_le_iff)
  then have a: "nat \<lceil>y\<rceil> \<le> c"
    by linarith
  have "of_int (int (c - 1)) \<le> y"
    using y(2) by simp
  then have "int (c - 1) \<le> \<lceil>y\<rceil>"
    by (simp only: le_of_int_ceiling order_trans of_int_le_iff [symmetric, where ?'a = real])
  then have b: "c - 1 \<le> nat \<lceil>y\<rceil>"
    by linarith
  have lt: "nat \<lceil>y\<rceil> < n"
    using a cn by (rule le_less_trans)
  have m: "js_mul (js_sub (Num (real n)) (Num 1)) (Num q) = Num y"
    using s y(1) by (simp add: x_def)
  show ?thesis
    using m y(1) y0 lt a b unfolding c_def x_def by blast
qed

lemma values_at_Num: "i < length xs \<Longrightarrow> values_at (map Num xs) i = JNum (Num (xs ! i))"
  by (simp add: values_at_def)

lemma values_at_rank:
  assumes "0 \<le> q" "q \<le> 1" "xs \<noteq> []" "length xs \<le> 2 ^ 53"
  shows "nat \<lceil>real_of_num (to_double ((real (length xs) - 1) * q))\<rceil> < length xs"
    and "values_at_num (map Num xs)
           (js_ceil (js_mul (js_sub (Num (real (length xs))) (Num 1)) (Num q))) =
         JNum (Num (xs ! nat \<lceil>real_of_num (to_double ((real (length xs) - 1) * q))\<rceil>))"
    and "nat \<lceil>(real (length xs) - 1) * q\<rceil> - 1 \<le>
           nat \<lceil>real_of_num (to_double ((real (length xs) - 1) * q))\<rceil>
         \<and> nat \<lceil>real_of_num (to_double ((real (length xs) - 1) * q))\<rceil> \<le>
           nat \<lceil>(real (length xs) - 1) * q\<rceil>"
proof -
  have n: "0 < length xs"
    using assms(3) by simp
  obtain y where y: "js_mul (js_sub (Num (real (length xs))) (Num 1)) (Num q) = Num y"
      "to_double ((real (length xs) - 1) * q) = Num y" "0 \<le> y" "nat \<lceil>y\<rceil> < length xs"
    and r: "nat \<lceil>(real (length xs) - 1) * q\<rceil> - 1 \<le> nat \<lceil>y\<rceil>"
      "nat \<lceil>y\<rceil> \<le> nat \<lceil>(real (length xs) - 1) * q\<rceil>"
    using quantile_rank [OF assms(1,2) n assms(4)] by blast
  have ry: "real_of_num (to_double ((real (length xs) - 1) * q)) = y"
    by (simp add: y(2))
  show "nat \<lceil>(real (length xs) - 1) * q\<rceil> - 1 \<le>
           nat \<lceil>real_of_num (to_double ((real (length xs) - 1) * q))\<rceil>
         \<and> nat \<lceil>real_of_num (to_double ((real (length xs) - 1) * q))\<rceil> \<le>
           nat \<lceil>(real (length xs) - 1) * q\<rceil>"
    unfolding ry using r by (rule conjI)
  show "nat \<lceil>real_of_num (to_double ((real (length xs) - 1) * q))\<rceil> < length xs"
    using y by simp
  have "0 \<le> \<lceil>y\<rceil>"
    using y(3) by (simp add: le_ceiling_iff)
  then show "values_at_num (map Num xs)
           (js_ceil (js_mul (js_sub (Num (real (length xs))) (Num 1)) (Num q))) =
         JNum (Num (xs ! nat \<lceil>real_of_num (to_double ((real (length xs) - 1) * q))\<rceil>))"
    using y by (simp add: values_at_num_def values_at_Num)
qed

lemma survivors_length: "length (spec_survivors sc raw) \<le> length raw"
  by (simp add: spec_survivors_def)

lemma updateMinMaxValues_bounds:
  assumes m: "w_activeMeasure s = Obj m" and q: "w_hotspotQuantile s = Num q" "0 \<le> q" "q \<le> 1"
    and d: "list_all is_double (measure_values m)" and l: "length (measure_values m) \<le> 2 ^ 53"
  shows "w_minValue (snd (updateMinMaxValues s)) =
           (if spec_survivors (w_scale s) (measure_values m) = [] then JNum (Num 0)
            else Scale_function (w_scale s) (JNum (Num (spec_survivors (w_scale s) (measure_values m) ! 0))))"
    and "w_maxValue (snd (updateMinMaxValues s)) =
           (if spec_survivors (w_scale s) (measure_values m) = [] then JNum (Num 0)
            else Scale_function (w_scale s)
                   (JNum (Num (spec_survivors (w_scale s) (measure_values m) !
                      nat \<lceil>real_of_num (to_double
                        ((real (length (spec_survivors (w_scale s) (measure_values m))) - 1) * q))\<rceil>))))"
proof -
  let ?xs = "spec_survivors (w_scale s) (measure_values m)"
  let ?k = "nat \<lceil>real_of_num (to_double ((real (length ?xs) - 1) * q))\<rceil>"
  let ?mn = "if ?xs = [] then JNum (Num 0) else Scale_function (w_scale s) (JNum (Num (?xs ! 0)))"
  let ?mx = "if ?xs = [] then JNum (Num 0) else Scale_function (w_scale s) (JNum (Num (?xs ! ?k)))"
  have len: "length ?xs \<le> 2 ^ 53"
    using survivors_length [of "w_scale s" "measure_values m"] l by (rule order_trans)
  have upd: "updateMinMaxValues s =
      (if \<not> js_loose_eq (w_minValue s) ?mn \<or> \<not> js_loose_eq (w_maxValue s) ?mx
       then (True, notify MAPPING_CHANGE (notify AUTO_MAPPING_CHANGE
                       (s\<lparr> w_minValue := ?mn, w_maxValue := ?mx \<rparr>)))
       else (False, s))"
  proof (cases "?xs = []")
    case True
    then show ?thesis
      by (simp add: updateMinMaxValues_def m q(1) array_sort_survivors [OF d] Let_def)
  next
    case False
    then show ?thesis
      using values_at_rank(2) [OF q(2,3) False len]
      by (simp add: updateMinMaxValues_def m q(1) array_sort_survivors [OF d] values_at_Num Let_def)
  qed
  obtain a where a: "?mn = JNum a"
    using Scale_function_JNum [of "w_scale s"] by (cases "?xs = []") auto
  obtain b where b: "?mx = JNum b"
    using Scale_function_JNum [of "w_scale s"] by (cases "?xs = []") auto
  show "w_minValue (snd (updateMinMaxValues s)) = ?mn"
    using js_loose_eq_JNum [of "w_minValue s" a] unfolding upd a
    by (auto simp: notify_other)
  show "w_maxValue (snd (updateMinMaxValues s)) = ?mx"
    using js_loose_eq_JNum [of "w_maxValue s" b] unfolding upd b
    by (auto simp: notify_other)
qed

lemma js_mul_NaN [simp]: "js_mul x NaN = NaN"
  by (cases x) simp_all

lemma loose_eq_undefined_transform:
  "\<not> js_loose_eq (JNum c) (Scale_function sc JUndefined)"
  by (cases sc; cases c) simp_all

lemma updateMinMaxValues_NaN_quantile:
  assumes "w_activeMeasure s = Obj m" "w_hotspotQuantile s = NaN"
    "list_all is_double (measure_values m)"
    "spec_survivors (w_scale s) (measure_values m) \<noteq> []" "w_maxValue s = JNum c"
  shows "w_maxValue (snd (updateMinMaxValues s)) = Scale_function (w_scale s) JUndefined"
  using assms(4)
  by (simp add: updateMinMaxValues_def assms(1,2,5) array_sort_survivors [OF assms(3)] Let_def
        values_at_num_def loose_eq_undefined_transform notify_other)

lemma updateMinMaxValues_quantile [simp]:
  "w_hotspotQuantile (snd (updateMinMaxValues s)) = w_hotspotQuantile s"
  by (simp add: updateMinMaxValues_def Let_def notify_other)

lemma updateIntensities_quantile [simp]:
  "w_hotspotQuantile (updateIntensities s) = w_hotspotQuantile s"
  by (simp add: updateIntensities_def Let_def split: option.splits)

lemma set_hotspotQuantile_clamp:
  "w_hotspotQuantile (set_hotspotQuantile v s) =
     (if w_hotspotQuantile s \<noteq> NaN \<and> w_hotspotQuantile s = v then v
      else if js_lt v (Num 0) then Num 0 else if js_gt v (Num 1) then Num 1 else v)"
proof -
  have "w_hotspotQuantile (case updateMinMaxValues t of
          (True, s') \<Rightarrow> updateIntensities s' | (False, s') \<Rightarrow> s') = w_hotspotQuantile t" for t
    using updateMinMaxValues_quantile [of t]
    by (cases "updateMinMaxValues t") (auto split: bool.splits)
  then show ?thesis
    by (simp add: set_hotspotQuantile_def Let_def js_gt_def)
qed

lemma set_hotspotQuantile_ok:
  "quantile_ok (w_hotspotQuantile s) \<Longrightarrow> quantile_ok (w_hotspotQuantile (set_hotspotQuantile v s))"
  unfolding set_hotspotQuantile_clamp by (cases v) (auto simp: js_gt_def)

lemma intensities_loop_enumerate:
  "intensities_loop s k spots =
     map (\<lambda>(j, sp). sp\<lparr> spot_intensity :=
            JNum (intensity_of (scaledValue s j) (w_minValue s) (w_maxValue s)) \<rparr>)
         (enumerate k spots)"
  by (induction spots arbitrary: k) simp_all

lemma intensity_of_numbers:
  "intensity_of (JNum (Num x)) (JNum (Num a)) (JNum (Num b)) =
     (if b \<le> x then Num 1
      else if a \<le> x then js_div (to_double (x - a)) (to_double (b - a))
      else NaN)"
  by (simp add: intensity_of_def jsv_ge_def jsv_sub_def not_less)

lemma small_doubles [simp]:
  "to_double 1 = Num 1" "to_double 2 = Num 2" "to_double 3 = Num 3" "to_double 4 = Num 4"
  "to_double 5 = Num 5" "to_double 9 = Num 9" "to_double 10 = Num 10" "to_double 20 = Num 20"
  "to_double 30 = Num 30" "to_double 40 = Num 40" "to_double 50 = Num 50" "to_double 60 = Num 60"
  using to_double_int [of 1] to_double_int [of 2] to_double_int [of 3] to_double_int [of 4]
    to_double_int [of 5] to_double_int [of 9] to_double_int [of 10] to_double_int [of 20]
    to_double_int [of 30] to_double_int [of 40] to_double_int [of 50] to_double_int [of 60]
  by simp_all

lemma to_double_0 [simp]: "to_double 0 = Num 0"
  by (simp add: to_double_def)

text \<open>
  Claim C1. With an active measure whose values are doubles, at most \<open>2 ^ 53\<close> of
  them, and a quantile between 0 and 1, the recompute of the automatic bounds keeps the
  raw values the scale accepts, in ascending order (what the code sorts is that
  sequence), and sets \<open>minValue\<close> to the scale transform of the first of them and
  \<open>maxValue\<close> to the transform of the one at rank \<open>ceil((n - 1) * hotspotQuantile)\<close>,
  the product being the double nearest to the exact one, so that the rank is the ceiling
  of the exact product or, where the product is rounded down onto an integer, one
  less, and both to 0 when none is accepted. The setter of \<open>hotspotQuantile\<close> keeps the
  quantile between 0 and 1 or not a number; with a quantile that is not a number there
  is no rank, and \<open>maxValue\<close> becomes the transform of \<open>undefined\<close>. With
  \<open>autoMinMax\<close> on, selecting a measure runs this recompute and then the intensity
  recompute. With an active measure, the intensity recompute gives the spot of
  index \<open>j\<close> the intensity of the scale transform of the raw value of index \<open>j\<close> under
  the bounds, which for numbers is 1 from \<open>maxValue\<close> on, the rounded quotient of the
  rounded differences from \<open>minValue\<close> on, and not-a-number below. For the raw values 1
  to 5 the accepted values are the same five; and with the bounds 1 and 3 on the linear
  scale the raw value 3 gets intensity 1, the raw value 2 gets 0.5 and the raw value 0.5
  gets not-a-number.
\<close>

theorem updateMinMaxValues_auto_bounds:
  "(w_activeMeasure s = Obj m \<and> w_hotspotQuantile s = Num q \<and> 0 \<le> q \<and> q \<le> 1
      \<and> list_all is_double (measure_values m) \<and> length (measure_values m) \<le> 2 ^ 53 \<longrightarrow>
      (let xs = spec_survivors (w_scale s) (measure_values m);
           k = nat \<lceil>real_of_num (to_double ((real (length xs) - 1) * q))\<rceil>;
           s' = snd (updateMinMaxValues s)
       in array_sort (filter (Scale_filter (w_scale s)) (measure_values m)) = map Num xs
          \<and> sorted xs
          \<and> (xs = [] \<longrightarrow> w_minValue s' = JNum (Num 0) \<and> w_maxValue s' = JNum (Num 0))
          \<and> (xs \<noteq> [] \<longrightarrow>
               k < length xs
               \<and> nat \<lceil>(real (length xs) - 1) * q\<rceil> - 1 \<le> k
               \<and> k \<le> nat \<lceil>(real (length xs) - 1) * q\<rceil>
               \<and> w_minValue s' = Scale_function (w_scale s) (JNum (Num (xs ! 0)))
               \<and> w_maxValue s' = Scale_function (w_scale s) (JNum (Num (xs ! k))))))
   \<and> (w_activeMeasure s = Obj m \<and> w_hotspotQuantile s = NaN
      \<and> list_all is_double (measure_values m)
      \<and> spec_survivors (w_scale s) (measure_values m) \<noteq> [] \<and> w_maxValue s = JNum c \<longrightarrow>
        w_maxValue (snd (updateMinMaxValues s)) = Scale_function (w_scale s) JUndefined)
   \<and> (quantile_ok (w_hotspotQuantile s) \<longrightarrow>
        quantile_ok (w_hotspotQuantile (set_hotspotQuantile v s)))
   \<and> (w_autoMinMax s \<and> w_measures s = Some ms \<and> 0 \<le> i \<and> i < int (length ms) \<longrightarrow>
        selectMapByIndex i s =
          updateIntensities (snd (updateMinMaxValues (s\<lparr> w_activeMeasure := Obj (ms ! nat i) \<rparr>))))
   \<and> (w_activeMeasure s = Obj m \<and> w_spots s = Some spots \<longrightarrow>
        w_spots (updateIntensities s) =
          Some (map (\<lambda>(j, sp). sp\<lparr> spot_intensity :=
                       JNum (intensity_of (Scale_function (w_scale s) (values_at (measure_values m) j))
                               (w_minValue s) (w_maxValue s)) \<rparr>)
                    (enumerate 0 spots)))
   \<and> intensity_of (JNum (Num x)) (JNum (Num a)) (JNum (Num b)) =
       (if b \<le> x then Num 1
        else if a \<le> x then js_div (to_double (x - a)) (to_double (b - a))
        else NaN)
   \<and> spec_survivors LINEAR [Num 1, Num 2, Num 3, Num 4, Num 5] = [1, 2, 3, 4, 5]
   \<and> intensity_of (Scale_function LINEAR (JNum (Num 3))) (JNum (Num 1)) (JNum (Num 3)) = Num 1
   \<and> intensity_of (Scale_function LINEAR (JNum (Num 2))) (JNum (Num 1)) (JNum (Num 3)) = Num (1 / 2)
   \<and> intensity_of (Scale_function LINEAR (JNum (Num (1 / 2)))) (JNum (Num 1)) (JNum (Num 3)) = NaN"
proof -
  have a: "let xs = spec_survivors (w_scale s) (measure_values m);
           k = nat \<lceil>real_of_num (to_double ((real (length xs) - 1) * q))\<rceil>;
           s' = snd (updateMinMaxValues s)
       in array_sort (filter (Scale_filter (w_scale s)) (measure_values m)) = map Num xs
          \<and> sorted xs
          \<and> (xs = [] \<longrightarrow> w_minValue s' = JNum (Num 0) \<and> w_maxValue s' = JNum (Num 0))
          \<and> (xs \<noteq> [] \<longrightarrow>
               k < length xs
               \<and> nat \<lceil>(real (length xs) - 1) * q\<rceil> - 1 \<le> k
               \<and> k \<le> nat \<lceil>(real (length xs) - 1) * q\<rceil>
               \<and> w_minValue s' = Scale_function (w_scale s) (JNum (Num (xs ! 0)))
               \<and> w_maxValue s' = Scale_function (w_scale s) (JNum (Num (xs ! k))))"
    if h: "w_activeMeasure s = Obj m" "w_hotspotQuantile s = Num q" "0 \<le> q" "q \<le> 1"
      "list_all is_double (measure_values m)" "length (measure_values m) \<le> 2 ^ 53"
  proof -
    let ?xs = "spec_survivors (w_scale s) (measure_values m)"
    have so: "sorted ?xs"
      by (simp add: spec_survivors_def)
    have len: "length ?xs \<le> 2 ^ 53"
      using survivors_length [of "w_scale s" "measure_values m"] h(6) by (rule order_trans)
    have rk: "?xs \<noteq> [] \<longrightarrow>
        nat \<lceil>real_of_num (to_double ((real (length ?xs) - 1) * q))\<rceil> < length ?xs"
      using values_at_rank(1) [OF h(3,4) _ len] by blast
    have rl: "?xs \<noteq> [] \<longrightarrow>
        nat \<lceil>(real (length ?xs) - 1) * q\<rceil> - 1 \<le>
           nat \<lceil>real_of_num (to_double ((real (length ?xs) - 1) * q))\<rceil>
         \<and> nat \<lceil>real_of_num (to_double ((real (length ?xs) - 1) * q))\<rceil> \<le>
           nat \<lceil>(real (length ?xs) - 1) * q\<rceil>"
      using values_at_rank(3) [OF h(3,4) _ len] by blast
    show ?thesis
      using updateMinMaxValues_bounds [OF h] so rk rl
      by (simp add: Let_def array_sort_survivors [OF h(5)])
  qed
  have b: "selectMapByIndex i s =
          updateIntensities (snd (updateMinMaxValues (s\<lparr> w_activeMeasure := Obj (ms ! nat i) \<rparr>)))"
    if "w_autoMinMax s" "w_measures s = Some ms" "0 \<le> i" "i < int (length ms)"
    using that by (simp add: selectMapByIndex_def measures_at_def Let_def)
  have c: "spec_survivors LINEAR [Num 1, Num 2, Num 3, Num 4, Num 5] = [1, 2, 3, 4, 5]"
    by (simp add: spec_survivors_def js_gt_def)
  have d: "intensity_of (Scale_function LINEAR (JNum (Num 3))) (JNum (Num 1)) (JNum (Num 3)) = Num 1"
    "intensity_of (Scale_function LINEAR (JNum (Num 2))) (JNum (Num 1)) (JNum (Num 3)) = Num (1 / 2)"
    "intensity_of (Scale_function LINEAR (JNum (Num (1 / 2)))) (JNum (Num 1)) (JNum (Num 3)) = NaN"
    by (simp_all add: intensity_of_numbers to_double_half)
  have e: "w_spots (updateIntensities s) =
          Some (map (\<lambda>(j, sp). sp\<lparr> spot_intensity :=
                       JNum (intensity_of (Scale_function (w_scale s) (values_at (measure_values m) j))
                               (w_minValue s) (w_maxValue s)) \<rparr>)
                    (enumerate 0 spots))"
    if "w_activeMeasure s = Obj m" "w_spots s = Some spots"
    using that by (simp add: updateIntensities_spots intensities_loop_enumerate scaledValue_def)
  show ?thesis
    using a b c d e intensity_of_numbers [of x a b]
      updateMinMaxValues_NaN_quantile [of s m c] set_hotspotQuantile_ok [of s v]
    by blast
qed

lemma example_fields [simp]:
  "w_autoMinMax example_workspace"
  "w_measures example_workspace = Some [example_measure]"
  "w_scale example_workspace = LINEAR"
  "w_hotspotQuantile example_workspace = Num (1 / 2)"
  "w_spots example_workspace = Some (map loaded_spot [''a'', ''b'', ''c'', ''d'', ''e''])"
  by (simp_all add: example_workspace_def Workspace_new_def)

lemma quantile_fields [simp]:
  "w_autoMinMax quantile_workspace"
  "w_measures quantile_workspace = Some [quantile_measure]"
  "w_scale quantile_workspace = LINEAR"
  "w_hotspotQuantile quantile_workspace = Num (3602879701896397 / 2 ^ 54)"
  "w_spots quantile_workspace = Some (map loaded_spot [''a'', ''b'', ''c'', ''d'', ''e'', ''f''])"
  by (simp_all add: quantile_workspace_def Workspace_new_def)

lemma example_rank:
  "nat \<lceil>real_of_num (to_double ((real (length [1, 2, 3, 4, 5 :: real]) - 1) * (1 / 2)))\<rceil> = 2"
  by simp

lemma quantile_rank_example:
  "nat \<lceil>real_of_num (to_double
      ((real (length [10, 20, 30, 40, 50, 60 :: real]) - 1) * (3602879701896397 / 2 ^ 54)))\<rceil> = 1"
proof -
  have "(real (length [10, 20, 30, 40, 50, 60 :: real]) - 1) * (3602879701896397 / 2 ^ 54) =
      5 * (3602879701896397 / 2 ^ 54)"
    by simp
  then show ?thesis
    by (simp only: to_double_5_02) simp
qed

theorem updateMinMaxValues_auto_bounds_witness:
  "list_all is_double (measure_values example_measure)
   \<and> w_minValue (selectMapByIndex 0 example_workspace) = JNum (Num 1)
   \<and> w_maxValue (selectMapByIndex 0 example_workspace) = JNum (Num 3)
   \<and> map_option (map spot_intensity) (w_spots (selectMapByIndex 0 example_workspace)) =
       Some [JNum (Num 0), JNum (Num (1 / 2)), JNum (Num 1), JNum (Num 1), JNum (Num 1)]
   \<and> list_all is_double (measure_values quantile_measure)
   \<and> w_minValue (selectMapByIndex 0 quantile_workspace) = JNum (Num 10)
   \<and> w_maxValue (selectMapByIndex 0 quantile_workspace) = JNum (Num 20)
   \<and> map_option (map spot_intensity) (w_spots (selectMapByIndex 0 quantile_workspace)) =
       Some [JNum (Num 0), JNum (Num 1), JNum (Num 1), JNum (Num 1), JNum (Num 1), JNum (Num 1)]"
proof -
  let ?s1 = "example_workspace\<lparr> w_activeMeasure := Obj example_measure \<rparr>"
  let ?s2 = "snd (updateMinMaxValues ?s1)"
  have vs: "measure_values example_measure = [Num 1, Num 2, Num 3, Num 4, Num 5]"
    by (simp add: example_measure_def)
  have dv: "list_all is_double (measure_values example_measure)"
    by (simp add: vs)
  have xs: "spec_survivors LINEAR (measure_values example_measure) = [1, 2, 3, 4, 5]"
    by (simp add: vs spec_survivors_def js_gt_def)
  have hyp: "w_activeMeasure ?s1 = Obj example_measure \<and> w_hotspotQuantile ?s1 = Num (1 / 2)
      \<and> (0::real) \<le> 1 / 2 \<and> (1::real) / 2 \<le> 1
      \<and> list_all is_double (measure_values example_measure)
      \<and> length (measure_values example_measure) \<le> 2 ^ 53"
    by (simp add: vs)
  note t = updateMinMaxValues_auto_bounds [where s = ?s1 and m = example_measure
      and q = "1 / 2" and ms = "[example_measure]" and i = 0
      and spots = "map loaded_spot [''a'', ''b'', ''c'', ''d'', ''e'']"]
  have bounds: "let xs = spec_survivors (w_scale ?s1) (measure_values example_measure);
           k = nat \<lceil>real_of_num (to_double ((real (length xs) - 1) * (1 / 2)))\<rceil>;
           s' = ?s2
       in array_sort (filter (Scale_filter (w_scale ?s1)) (measure_values example_measure)) = map Num xs
          \<and> sorted xs
          \<and> (xs = [] \<longrightarrow> w_minValue s' = JNum (Num 0) \<and> w_maxValue s' = JNum (Num 0))
          \<and> (xs \<noteq> [] \<longrightarrow>
               k < length xs
               \<and> nat \<lceil>(real (length xs) - 1) * (1 / 2)\<rceil> - 1 \<le> k
               \<and> k \<le> nat \<lceil>(real (length xs) - 1) * (1 / 2)\<rceil>
               \<and> w_minValue s' = Scale_function (w_scale ?s1) (JNum (Num (xs ! 0)))
               \<and> w_maxValue s' = Scale_function (w_scale ?s1) (JNum (Num (xs ! k))))"
    using t hyp by blast
  have sc: "w_scale ?s1 = LINEAR"
    by simp
  have mn: "w_minValue ?s2 = JNum (Num 1)" and mx: "w_maxValue ?s2 = JNum (Num 3)"
    using bounds unfolding Let_def sc xs example_rank by simp_all
  have sel: "selectMapByIndex 0 example_workspace = updateIntensities ?s2"
    using updateMinMaxValues_auto_bounds [where s = example_workspace and ms = "[example_measure]"
        and i = 0]
    by simp
  have fr: "w_spots ?s2 = Some (map loaded_spot [''a'', ''b'', ''c'', ''d'', ''e''])"
    "w_activeMeasure ?s2 = Obj example_measure" "w_scale ?s2 = LINEAR"
    using updateMinMaxValues_frame [of ?s1] by simp_all
  have "w_spots (updateIntensities ?s2) =
          Some (map (\<lambda>(j, sp). sp\<lparr> spot_intensity :=
                       JNum (intensity_of (Scale_function (w_scale ?s2) (values_at (measure_values example_measure) j))
                               (w_minValue ?s2) (w_maxValue ?s2)) \<rparr>)
                    (enumerate 0 (map loaded_spot [''a'', ''b'', ''c'', ''d'', ''e''])))"
    using updateMinMaxValues_auto_bounds [where s = ?s2 and m = example_measure
      and spots = "map loaded_spot [''a'', ''b'', ''c'', ''d'', ''e'']"] fr
    by blast
  then have ins: "map_option (map spot_intensity) (w_spots (updateIntensities ?s2)) =
       Some [JNum (Num 0), JNum (Num (1 / 2)), JNum (Num 1), JNum (Num 1), JNum (Num 1)]"
    by (simp add: fr(3) mn mx vs values_at_def intensity_of_numbers to_double_half)
  let ?q1 = "quantile_workspace\<lparr> w_activeMeasure := Obj quantile_measure \<rparr>"
  let ?q2 = "snd (updateMinMaxValues ?q1)"
  have qvs: "measure_values quantile_measure = [Num 10, Num 20, Num 30, Num 40, Num 50, Num 60]"
    by (simp add: quantile_measure_def)
  have qdv: "list_all is_double (measure_values quantile_measure)"
    by (simp add: qvs)
  have qxs: "spec_survivors LINEAR (measure_values quantile_measure) = [10, 20, 30, 40, 50, 60]"
    by (simp add: qvs spec_survivors_def js_gt_def)
  have qhyp: "w_activeMeasure ?q1 = Obj quantile_measure
      \<and> w_hotspotQuantile ?q1 = Num (3602879701896397 / 2 ^ 54)
      \<and> (0::real) \<le> 3602879701896397 / 2 ^ 54 \<and> (3602879701896397::real) / 2 ^ 54 \<le> 1
      \<and> list_all is_double (measure_values quantile_measure)
      \<and> length (measure_values quantile_measure) \<le> 2 ^ 53"
    by (simp add: qvs)
  have qbounds: "let xs = spec_survivors (w_scale ?q1) (measure_values quantile_measure);
           k = nat \<lceil>real_of_num (to_double ((real (length xs) - 1) * (3602879701896397 / 2 ^ 54)))\<rceil>;
           s' = ?q2
       in array_sort (filter (Scale_filter (w_scale ?q1)) (measure_values quantile_measure)) = map Num xs
          \<and> sorted xs
          \<and> (xs = [] \<longrightarrow> w_minValue s' = JNum (Num 0) \<and> w_maxValue s' = JNum (Num 0))
          \<and> (xs \<noteq> [] \<longrightarrow>
               k < length xs
               \<and> nat \<lceil>(real (length xs) - 1) * (3602879701896397 / 2 ^ 54)\<rceil> - 1 \<le> k
               \<and> k \<le> nat \<lceil>(real (length xs) - 1) * (3602879701896397 / 2 ^ 54)\<rceil>
               \<and> w_minValue s' = Scale_function (w_scale ?q1) (JNum (Num (xs ! 0)))
               \<and> w_maxValue s' = Scale_function (w_scale ?q1) (JNum (Num (xs ! k))))"
    using updateMinMaxValues_auto_bounds [where s = ?q1 and m = quantile_measure
      and q = "3602879701896397 / 2 ^ 54"] qhyp
    by blast
  have qsc: "w_scale ?q1 = LINEAR"
    by simp
  have qmn: "w_minValue ?q2 = JNum (Num 10)" and qmx: "w_maxValue ?q2 = JNum (Num 20)"
    using qbounds unfolding Let_def qsc qxs quantile_rank_example by simp_all
  have qsel: "selectMapByIndex 0 quantile_workspace = updateIntensities ?q2"
    using updateMinMaxValues_auto_bounds [where s = quantile_workspace and ms = "[quantile_measure]"
        and i = 0]
    by simp
  have qfr: "w_spots ?q2 = Some (map loaded_spot [''a'', ''b'', ''c'', ''d'', ''e'', ''f''])"
    "w_activeMeasure ?q2 = Obj quantile_measure" "w_scale ?q2 = LINEAR"
    using updateMinMaxValues_frame [of ?q1] by simp_all
  have "w_spots (updateIntensities ?q2) =
          Some (map (\<lambda>(j, sp). sp\<lparr> spot_intensity :=
                       JNum (intensity_of (Scale_function (w_scale ?q2) (values_at (measure_values quantile_measure) j))
                               (w_minValue ?q2) (w_maxValue ?q2)) \<rparr>)
                    (enumerate 0 (map loaded_spot [''a'', ''b'', ''c'', ''d'', ''e'', ''f''])))"
    using updateMinMaxValues_auto_bounds [where s = ?q2 and m = quantile_measure
      and spots = "map loaded_spot [''a'', ''b'', ''c'', ''d'', ''e'', ''f'']"] qfr
    by blast
  then have qis: "map_option (map spot_intensity) (w_spots (updateIntensities ?q2)) =
       Some [JNum (Num 0), JNum (Num 1), JNum (Num 1), JNum (Num 1), JNum (Num 1), JNum (Num 1)]"
    by (simp add: qfr(3) qmn qmx qvs values_at_def intensity_of_numbers)
  show ?thesis
    using dv qdv ins qis by (simp add: sel mn mx qsel qmn qmx)
qed

lemma intensity_equal_bounds:
  "intensity_of sv b b = (if jsv_ge sv b then Num 1 else NaN)"
  by (simp add: intensity_of_def)

text \<open>
  Claim C2, at the input where the code departs from it. With equal bounds a spot whose
  scaled value is a number gets 1 from the bound on and not-a-number below, as the lemma
  above has it. But after a measures load the active measure is \<open>null\<close>, so that no spot
  has a scaled value; with both bounds set to \<open>- 2\<close> by hand, \<open>null >= - 2\<close> holds and the
  intensity recompute gives every spot the intensity 1 and not not-a-number.
\<close>

theorem updateIntensities_equal_bounds_null_measure:
  "w_activeMeasure equal_bounds_workspace = Null
   \<and> w_minValue equal_bounds_workspace = JNum (Num (- 2))
   \<and> w_maxValue equal_bounds_workspace = JNum (Num (- 2))
   \<and> map_option (map spot_name) (w_spots equal_bounds_workspace) = Some [''a'', ''b'']
   \<and> map_option (map spot_intensity) (w_spots equal_bounds_workspace) =
       Some [JNum (Num 1), JNum (Num 1)]"
  by (simp add: equal_bounds_workspace_def set_maxValue_def set_minValue_def set_autoMinMax_def
        notify_other updateIntensities_def Let_def scaledValue_def intensity_of_def jsv_ge_def
        loaded_spot_def)

text \<open>
  Claim C9. \<open>selectMapByIndex\<close> has no failing path. With no measures loaded it leaves
  the workspace, the published events included, as it was. With measures loaded and an
  index outside them, the active measure becomes \<open>undefined\<close>, \<open>mapName\<close> is the empty
  string, and the intensity of every spot becomes not-a-number.
\<close>

theorem selectMapByIndex_out_of_range:
  "(w_measures s = None \<longrightarrow> selectMapByIndex i s = s)
   \<and> (w_measures s = Some ms \<and> (i < 0 \<or> int (length ms) \<le> i) \<longrightarrow>
        w_activeMeasure (selectMapByIndex i s) = Undefined
        \<and> mapName (selectMapByIndex i s) = []
        \<and> w_spots (selectMapByIndex i s) =
            map_option (map (\<lambda>sp. sp\<lparr> spot_intensity := JNum NaN \<rparr>)) (w_spots s))"
proof -
  have a: "w_measures s = None \<longrightarrow> selectMapByIndex i s = s"
    by (simp add: selectMapByIndex_def)
  have b: "w_activeMeasure (selectMapByIndex i s) = Undefined
        \<and> mapName (selectMapByIndex i s) = []
        \<and> w_spots (selectMapByIndex i s) =
            map_option (map (\<lambda>sp. sp\<lparr> spot_intensity := JNum NaN \<rparr>)) (w_spots s)"
    if ms: "w_measures s = Some ms" and i: "i < 0 \<or> int (length ms) \<le> i"
  proof -
    let ?s1 = "s\<lparr> w_activeMeasure := Undefined \<rparr>"
    let ?s2 = "if w_autoMinMax s then snd (updateMinMaxValues ?s1) else ?s1"
    have at: "measures_at ms i = Undefined"
      using i by (auto simp: measures_at_def)
    have sel: "selectMapByIndex i s = updateIntensities ?s2"
      by (simp add: selectMapByIndex_def ms at Let_def)
    have s2: "w_activeMeasure ?s2 = Undefined \<and> w_spots ?s2 = w_spots s"
      using updateMinMaxValues_frame [of ?s1] by simp
    show ?thesis
      using updateIntensities_undefined [of ?s2] s2 by (simp add: sel mapName_def)
  qed
  show ?thesis
    using a b by blast
qed

theorem selectMapByIndex_out_of_range_witness:
  "w_measures (Workspace_new 0) = None
   \<and> selectMapByIndex 0 (Workspace_new 0) = Workspace_new 0
   \<and> w_activeMeasure (selectMapByIndex 7 example_workspace) = Undefined
   \<and> mapName (selectMapByIndex 7 example_workspace) = []
   \<and> map_option (map spot_intensity) (w_spots (selectMapByIndex 7 example_workspace)) =
       Some [JNum NaN, JNum NaN, JNum NaN, JNum NaN, JNum NaN]"
proof -
  have n: "w_measures (Workspace_new 0) = None"
    by (simp add: Workspace_new_def)
  have a: "selectMapByIndex 0 (Workspace_new 0) = Workspace_new 0"
    using selectMapByIndex_out_of_range [where s = "Workspace_new 0" and i = 0] n by blast
  have h: "w_measures example_workspace = Some [example_measure]
      \<and> ((7::int) < 0 \<or> int (length [example_measure]) \<le> 7)"
    by simp
  note t = selectMapByIndex_out_of_range [where s = example_workspace
      and ms = "[example_measure]" and i = 7]
  have b: "w_activeMeasure (selectMapByIndex 7 example_workspace) = Undefined"
    and c: "mapName (selectMapByIndex 7 example_workspace) = []"
    and d: "w_spots (selectMapByIndex 7 example_workspace) =
            map_option (map (\<lambda>sp. sp\<lparr> spot_intensity := JNum NaN \<rparr>)) (w_spots example_workspace)"
    using t h by blast+
  have e: "map_option (map spot_intensity) (w_spots (selectMapByIndex 7 example_workspace)) =
       Some [JNum NaN, JNum NaN, JNum NaN, JNum NaN, JNum NaN]"
    by (simp add: d)
  show ?thesis
    using n a b c e by blast
qed

text \<open>
  Claim C3, at the input where the code departs from it. After a measures load the
  active measure is \<open>null\<close> and both bounds are 0; \<open>null >= 0\<close> holds, so the intensity
  recompute, here on its own and as run by the \<open>scaleId\<close> setter, gives every spot the
  intensity 1 and not not-a-number.
\<close>

theorem updateIntensities_null_measure:
  "w_activeMeasure loaded_workspace = Null
   \<and> w_minValue loaded_workspace = JNum (Num 0)
   \<and> w_maxValue loaded_workspace = JNum (Num 0)
   \<and> map_option (map spot_intensity) (w_spots (updateIntensities loaded_workspace)) =
       Some [JNum (Num 1), JNum (Num 1)]
   \<and> map_sum id (\<lambda>s. map_option (map spot_intensity) (w_spots s))
        (set_scaleId ''log'' loaded_workspace) =
       Inr (Some [JNum (Num 1), JNum (Num 1)])"
proof -
  have f: "w_activeMeasure loaded_workspace = Null" "w_minValue loaded_workspace = JNum (Num 0)"
    "w_maxValue loaded_workspace = JNum (Num 0)" "w_scale loaded_workspace = LINEAR"
    "w_autoMinMax loaded_workspace"
    by simp_all
  have sv: "scaledValue loaded_workspace i = JNull" for i
    by (simp add: scaledValue_def)
  have one: "intensity_of JNull (JNum (Num 0)) (JNum (Num 0)) = Num 1"
    by (simp add: intensity_of_def jsv_ge_def)
  have sp: "w_spots loaded_workspace =
      Some (map (\<lambda>n. (loaded_spot n)\<lparr> spot_scale := JNum (Num 1),
            spot_color := ''ffffff'', spot_visibility := JNum (Num 1) \<rparr>) [''a'', ''b''])"
    by simp
  have a: "map_option (map spot_intensity) (w_spots (updateIntensities loaded_workspace)) =
       Some [JNum (Num 1), JNum (Num 1)]"
    unfolding updateIntensities_spots [OF sp]
    by (simp add: sv one)
  let ?s1 = "loaded_workspace\<lparr> w_scale := LOG \<rparr>"
  have u: "snd (updateMinMaxValues ?s1) = ?s1"
    by (simp add: updateMinMaxValues_def array_sort_def Let_def)
  have sp1: "w_spots ?s1 =
      Some (map (\<lambda>n. (loaded_spot n)\<lparr> spot_scale := JNum (Num 1),
            spot_color := ''ffffff'', spot_visibility := JNum (Num 1) \<rparr>) [''a'', ''b''])"
    by simp
  have sv1: "scaledValue ?s1 i = JNull" for i
    by (simp add: scaledValue_def)
  have b: "map_option (map spot_intensity) (w_spots (updateIntensities ?s1)) =
       Some [JNum (Num 1), JNum (Num 1)]"
    unfolding updateIntensities_spots [OF sp1]
    by (simp add: sv1 one)
  have "set_scaleId ''log'' loaded_workspace = Inr (notify MAPPING_CHANGE (updateIntensities ?s1))"
    by (simp add: set_scaleId_def getScaleById_cases u Let_def)
  then have c: "map_sum id (\<lambda>s. map_option (map spot_intensity) (w_spots s))
        (set_scaleId ''log'' loaded_workspace) = Inr (Some [JNum (Num 1), JNum (Num 1)])"
    using b by (simp add: notify_other)
  show ?thesis
    using f a c by blast
qed

end
